theory Spec2Isabelle
  imports Main "HOL-Library.Word" "HOL-Library.Signed_Division"
begin

section \<open>Machine integers and external values\<close>

text \<open>
  Go's \<open>uint64\<close> and \<open>int64\<close> are 64-bit words: \<open>+\<close>, \<open>-\<close> and \<open>*\<close> wrap, \<open>div\<close> and
  \<open><\<close> on a word are the unsigned operations, \<open>sint\<close> reads the two's complement value.
  \<open>*big.Int\<close> amounts are unbounded and modelled as \<open>int\<close>.
\<close>

type_synonym uint64 = "64 word"
type_synonym int64 = "64 word"

text \<open>Go's \<open>/\<close> on \<open>int64\<close> truncates toward zero and panics on a zero divisor.\<close>

definition div_int64 :: "int64 \<Rightarrow> int64 \<Rightarrow> int64 option" where
  "div_int64 a b = (if b = 0 then None else Some (word_of_int (sint a sdiv sint b)))"

text \<open>\<open>(*big.Int).Int64\<close> returns the low 64 bits of the value in two's complement.\<close>

definition Int64 :: "int \<Rightarrow> int64" where
  "Int64 x = word_of_int x"

section \<open>Package perun: the ledger node seen through the RPC client\<close>

text \<open>
  A script is identified by its hash, an out point by the hash of its transaction and
  an index. Cell dependencies, output data and witnesses (the signature) of a
  transaction are left out: \<open>signTransaction\<close> never fails and only fills the witness.
\<close>

type_synonym script = nat
type_synonym hash = nat
type_synonym outpoint = "hash \<times> nat"

record CellOutput =
  Capacity :: uint64
  Lock :: script
  Type :: "script option"

record LiveCell =
  OutPoint :: outpoint
  Output :: CellOutput

record Transaction =
  Inputs :: "outpoint list"
  Outputs :: "CellOutput list"

datatype error =
    RPCError
  | FailedToGetCells error
  | NoCellsFound
  | NoSplittableCell
  | FailedToSendTransaction error
  | TransactionNotConfirmed error
  | ConfirmationTimeout
  | TransactionRejected
  | FailedToCountCells error
  | NoCellsInWallet
  | FailedToSplitCell error
  | FailedToCountCellsAfterSplit error
  | FailedToDecodeDestination
  | NoWithdrawableCells
  | InsufficientBalance uint64

text \<open>
  The node is the environment of \<open>CellSplitter\<close> and \<open>Withdrawer\<close>. Its state is the
  list of live cells in indexer order and \<open>sent\<close>, the transactions the code has
  submitted: every transaction passed to \<open>SendTransaction\<close>, in the order of the calls,
  whether the call returned a hash or an error. What the code cannot control is
  scripted in advance: \<open>faults\<close> says for each coming \<open>GetCells\<close> or \<open>SendTransaction\<close>
  call whether it returns an error, \<open>fates\<close> says for each coming confirmation wait
  what the node reports before the two-minute timeout. An exhausted script means no
  fault and a committed transaction.
\<close>

datatype tx_fate = Committed | Rejected | Unconfirmed

record node =
  live :: "LiveCell list"
  sent :: "Transaction list"
  faults :: "bool list"
  fates :: "tx_fate list"

definition rpc_call :: "node \<Rightarrow> bool \<times> node" where
  "rpc_call n = (case faults n of [] \<Rightarrow> (False, n) | f # fs \<Rightarrow> (f, n\<lparr>faults := fs\<rparr>))"

text \<open>\<open>rpcClient.GetCells\<close> with an exact lock-script search key and a page of 100.\<close>

definition rpc_GetCells :: "node \<Rightarrow> script \<Rightarrow> (error + LiveCell list) \<times> node" where
  "rpc_GetCells n lockScript =
     (case rpc_call n of
        (True, n') \<Rightarrow> (Inl RPCError, n')
      | (False, n') \<Rightarrow>
          (Inr (take 100 (filter (\<lambda>c. Lock (Output c) = lockScript) (live n))), n'))"

text \<open>
  \<open>rpcClient.SendTransaction\<close>: the transaction is recorded as submitted; a call that
  returns no error returns the hash of the transaction.
\<close>

definition rpc_SendTransaction :: "node \<Rightarrow> Transaction \<Rightarrow> (error + hash) \<times> node" where
  "rpc_SendTransaction n tx =
     (case rpc_call n of
        (True, n') \<Rightarrow> (Inl RPCError, n'\<lparr>sent := sent n' @ [tx]\<rparr>)
      | (False, n') \<Rightarrow> (Inr (length (sent n')), n'\<lparr>sent := sent n' @ [tx]\<rparr>))"

text \<open>A committed transaction consumes its inputs and creates its outputs.\<close>

definition new_cells :: "hash \<Rightarrow> CellOutput list \<Rightarrow> LiveCell list" where
  "new_cells h outs =
     map (\<lambda>(i, out). \<lparr>OutPoint = (h, i), Output = out\<rparr>) (enumerate 0 outs)"

definition commit_tx :: "hash \<Rightarrow> Transaction \<Rightarrow> LiveCell list \<Rightarrow> LiveCell list" where
  "commit_tx h tx cells =
     filter (\<lambda>c. OutPoint c \<notin> set (Inputs tx)) cells @ new_cells h (Outputs tx)"

section \<open>\<open>cell_splitter.go\<close>\<close>

definition SplitFee :: uint64 where
  "SplitFee = 100000"

definition CellMinCapacity :: uint64 where
  "CellMinCapacity = 6100000000"

definition CountCells :: "node \<Rightarrow> script \<Rightarrow> (error + int) \<times> node" where
  "CountCells n lockScript =
     (case rpc_GetCells n lockScript of
        (Inl e, n') \<Rightarrow> (Inl (FailedToGetCells e), n')
      | (Inr cells, n') \<Rightarrow>
          (Inr (int (length (filter (\<lambda>c. Type (Output c) = None) cells))), n'))"

definition GetCells :: "node \<Rightarrow> script \<Rightarrow> (error + LiveCell list) \<times> node" where
  "GetCells n lockScript =
     (case rpc_GetCells n lockScript of
        (Inl e, n') \<Rightarrow> (Inl (FailedToGetCells e), n')
      | (Inr cells, n') \<Rightarrow> (Inr (filter (\<lambda>c. Type (Output c) = None) cells), n'))"

definition minSplitCapacity :: uint64 where
  "minSplitCapacity = 2 * CellMinCapacity + SplitFee"

text \<open>The selection loop of \<open>SplitCell\<close>: the largest splittable cell, the first of equals.\<close>

fun pick_cell :: "LiveCell list \<Rightarrow> LiveCell option \<Rightarrow> LiveCell option" where
  "pick_cell [] cellToSplit = cellToSplit"
| "pick_cell (cell # cells) cellToSplit =
     pick_cell cells
       (if minSplitCapacity \<le> Capacity (Output cell)
        then (case cellToSplit of
                None \<Rightarrow> Some cell
              | Some best \<Rightarrow>
                  if Capacity (Output best) < Capacity (Output cell) then Some cell
                  else Some best)
        else cellToSplit)"

text \<open>The capacities of the two outputs; \<open>raise_branch\<close> is the guard of the \<open>if\<close>.\<close>

definition raise_branch :: "uint64 \<Rightarrow> bool" where
  "raise_branch totalCapacity \<longleftrightarrow> (totalCapacity - SplitFee) div 2 < CellMinCapacity"

definition split_capacities :: "uint64 \<Rightarrow> uint64 \<times> uint64" where
  "split_capacities totalCapacity =
     (let availableCapacity = totalCapacity - SplitFee;
          cell1Capacity = availableCapacity div 2;
          cell2Capacity = availableCapacity - cell1Capacity
      in if raise_branch totalCapacity
         then (CellMinCapacity, availableCapacity - CellMinCapacity)
         else (cell1Capacity, cell2Capacity))"

definition split_tx :: "LiveCell \<Rightarrow> script \<Rightarrow> Transaction" where
  "split_tx cellToSplit lockScript =
     (case split_capacities (Capacity (Output cellToSplit)) of
        (cell1Capacity, cell2Capacity) \<Rightarrow>
          \<lparr>Inputs = [OutPoint cellToSplit],
           Outputs = [\<lparr>Capacity = cell1Capacity, Lock = lockScript, Type = None\<rparr>,
                      \<lparr>Capacity = cell2Capacity, Lock = lockScript, Type = None\<rparr>]\<rparr>)"

text \<open>
  \<open>waitForConfirmation\<close> polls every two seconds for two minutes; a failed poll is
  retried. Its outcome is the fate the node has for the transaction: committed,
  rejected, or neither before the timeout or the cancellation of the context.
\<close>

definition waitForConfirmation :: "node \<Rightarrow> hash \<Rightarrow> Transaction \<Rightarrow> error option \<times> node" where
  "waitForConfirmation n txHash tx =
     (case fates n of
        [] \<Rightarrow> (None, n\<lparr>live := commit_tx txHash tx (live n)\<rparr>)
      | Committed # fs \<Rightarrow> (None, n\<lparr>live := commit_tx txHash tx (live n), fates := fs\<rparr>)
      | Rejected # fs \<Rightarrow> (Some TransactionRejected, n\<lparr>fates := fs\<rparr>)
      | Unconfirmed # fs \<Rightarrow> (Some ConfirmationTimeout, n\<lparr>fates := fs\<rparr>))"

definition SplitCell :: "node \<Rightarrow> script \<Rightarrow> (error + hash) \<times> node" where
  "SplitCell n lockScript =
     (case GetCells n lockScript of
        (Inl e, n1) \<Rightarrow> (Inl e, n1)
      | (Inr cells, n1) \<Rightarrow>
          if cells = [] then (Inl NoCellsFound, n1)
          else (case pick_cell cells None of
                  None \<Rightarrow> (Inl NoSplittableCell, n1)
                | Some cellToSplit \<Rightarrow>
                    (case rpc_SendTransaction n1 (split_tx cellToSplit lockScript) of
                       (Inl e, n2) \<Rightarrow> (Inl (FailedToSendTransaction e), n2)
                     | (Inr txHash, n2) \<Rightarrow>
                         (case waitForConfirmation n2 txHash (split_tx cellToSplit lockScript) of
                            (Some e, n3) \<Rightarrow> (Inl (TransactionNotConfirmed e), n3)
                          | (None, n3) \<Rightarrow> (Inr txHash, n3)))))"

text \<open>
  The loop of \<open>EnsureMinimumCells\<close>. Every successful split costs \<open>SplitFee\<close> of the
  capacity the ledger holds, which is why the loop ends; the termination proof follows
  the definitions.
\<close>

definition total_capacity :: "LiveCell list \<Rightarrow> nat" where
  "total_capacity cells = sum_list (map (\<lambda>c. unat (Capacity (Output c))) cells)"

function split_loop :: "node \<Rightarrow> script \<Rightarrow> int \<Rightarrow> int \<Rightarrow> error option \<times> node" where
  "split_loop n lockScript minCells count =
     (if count < minCells then
        (case SplitCell n lockScript of
           (Inl e, n1) \<Rightarrow> (Some (FailedToSplitCell e), n1)
         | (Inr txHash, n1) \<Rightarrow>
             (case CountCells n1 lockScript of
                (Inl e, n2) \<Rightarrow> (Some (FailedToCountCellsAfterSplit e), n2)
              | (Inr count', n2) \<Rightarrow> split_loop n2 lockScript minCells count'))
      else (None, n))"
  by pat_completeness auto

definition EnsureMinimumCells :: "node \<Rightarrow> script \<Rightarrow> int \<Rightarrow> error option \<times> node" where
  "EnsureMinimumCells n lockScript minCells =
     (case CountCells n lockScript of
        (Inl e, n1) \<Rightarrow> (Some (FailedToCountCells e), n1)
      | (Inr count, n1) \<Rightarrow>
          if minCells \<le> count then (None, n1)
          else if count = 0 then (Some NoCellsInWallet, n1)
          else split_loop n1 lockScript minCells count)"

definition EnsureMultipleCells :: "node \<Rightarrow> script \<Rightarrow> error option \<times> node" where
  "EnsureMultipleCells n lockScript = EnsureMinimumCells n lockScript 2"

section \<open>\<open>withdraw.go\<close>\<close>

definition WithdrawFee :: uint64 where
  "WithdrawFee = 100000"

text \<open>
  Modelled from the spec: the declaration of \<open>MinCellCapacity\<close> of package perun is not
  among the sources. The specification calls it the minimum cell capacity, and the
  tests' copy of the constants of \<open>withdraw.go\<close> gives 61 CKB.
\<close>

definition MinCellCapacity :: uint64 where
  "MinCellCapacity = 6100000000"

text \<open>The loop of \<open>WithdrawAll\<close> over the cells of the page.\<close>

fun collect_inputs ::
  "script \<Rightarrow> LiveCell list \<Rightarrow> uint64 \<times> outpoint list \<Rightarrow> uint64 \<times> outpoint list" where
  "collect_inputs fromLockScript [] acc = acc"
| "collect_inputs fromLockScript (cell # cells) (totalCapacity, inputs) =
     (if Type (Output cell) \<noteq> None
      then collect_inputs fromLockScript cells (totalCapacity, inputs)
      else if Lock (Output cell) \<noteq> fromLockScript
      then collect_inputs fromLockScript cells (totalCapacity, inputs)
      else collect_inputs fromLockScript cells
             (totalCapacity + Capacity (Output cell), inputs @ [OutPoint cell]))"

definition withdraw_tx :: "outpoint list \<Rightarrow> uint64 \<Rightarrow> script \<Rightarrow> Transaction" where
  "withdraw_tx inputs outputCapacity toLockScript =
     \<lparr>Inputs = inputs,
      Outputs = [\<lparr>Capacity = outputCapacity, Lock = toLockScript, Type = None\<rparr>]\<rparr>"

text \<open>
  \<open>decodeAddressToScript\<close> is the address decoder of the SDK, a parameter here:
  \<open>None\<close> when the address does not decode.
\<close>

definition WithdrawAll ::
  "(string \<Rightarrow> script option) \<Rightarrow> node \<Rightarrow> script \<Rightarrow> string \<Rightarrow> (error + hash) \<times> node" where
  "WithdrawAll decodeAddressToScript n fromLockScript toAddress =
     (case decodeAddressToScript toAddress of
        None \<Rightarrow> (Inl FailedToDecodeDestination, n)
      | Some toLockScript \<Rightarrow>
          (case rpc_GetCells n fromLockScript of
             (Inl e, n1) \<Rightarrow> (Inl (FailedToGetCells e), n1)
           | (Inr cells, n1) \<Rightarrow>
               if cells = [] then (Inl NoCellsInWallet, n1)
               else (case collect_inputs fromLockScript cells (0, []) of
                       (totalCapacity, inputs) \<Rightarrow>
                         if inputs = [] then (Inl NoWithdrawableCells, n1)
                         else if totalCapacity \<le> WithdrawFee + MinCellCapacity
                         then (Inl (InsufficientBalance totalCapacity), n1)
                         else (case rpc_SendTransaction n1
                                      (withdraw_tx inputs (totalCapacity - WithdrawFee) toLockScript) of
                                 (Inl e, n2) \<Rightarrow> (Inl (FailedToSendTransaction e), n2)
                               | (Inr txHash, n2) \<Rightarrow> (Inr txHash, n2)))))"

section \<open>Package main: the server and its sessions\<close>

text \<open>
  Instants and durations are counted in nanoseconds. An instant is an unbounded
  integer; a \<open>time.Duration\<close> is an \<open>int64\<close>.
\<close>

type_synonym time = int

definition Minute :: int64 where
  "Minute = 60000000000"

definition Add :: "time \<Rightarrow> int64 \<Rightarrow> time" where
  "Add t d = t + sint d"

text \<open>
  A \<open>GuestSession\<close> without its \<open>Client\<close> and \<open>Channel\<close>, which belong to the
  channel client. Whether a payment over the channel succeeds is an input of the
  operation that sends it.
\<close>

record GuestSession =
  ID :: string
  GuestAddress :: string
  FundingAmount :: int
  TotalPaid :: int
  CreatedAt :: time
  ExpiresAt :: time

record Server =
  sessions :: "string \<rightharpoonup> GuestSession"
  ratePerMin :: int
  channelSetupCKB :: int64

record ServerConfig =
  RatePerHour :: int64
  ChannelSetupCKB :: int64

text \<open>\<open>(ratePerHour * 100000000) / 60\<close> on \<open>int64\<close>.\<close>

definition ratePerMinShannons :: "int64 \<Rightarrow> int64" where
  "ratePerMinShannons ratePerHour = word_of_int (sint (ratePerHour * 100000000) sdiv 60)"

definition NewServer :: "ServerConfig \<Rightarrow> Server" where
  "NewServer cfg =
     \<lparr>sessions = Map.empty,
      ratePerMin = sint (ratePerMinShannons (RatePerHour cfg)),
      channelSetupCKB =
        (if sint (ChannelSetupCKB cfg) \<le> 0 then 1000 else ChannelSetupCKB cfg)\<rparr>"

definition updateRatePerMin :: "Server \<Rightarrow> int64 \<Rightarrow> Server" where
  "updateRatePerMin s ratePerHour = s\<lparr>ratePerMin := sint (ratePerMinShannons ratePerHour)\<rparr>"

text \<open>The rows of the persistent store that \<open>createSessionFromWallet\<close> reads and writes.\<close>

record GuestWallet =
  wallet_ID :: string
  Address :: string
  PrivateKeyHex :: string
  MACAddress :: string
  IPAddress :: string

record Session =
  session_ID :: string
  WalletID :: string
  session_GuestAddress :: string
  HostAddress :: string
  FundingCKB :: int64
  BalanceCKB :: int64
  SpentCKB :: int64
  session_CreatedAt :: time
  session_ExpiresAt :: time
  Status :: string
  session_MACAddress :: string
  session_IPAddress :: string

text \<open>
  What \<open>createSessionFromWallet\<close> takes from outside: the random session id, the
  rate the store returns (\<open>None\<close> for an error), the clock, the host address and
  whether \<open>CreateSession\<close> succeeds.
\<close>

record create_env =
  randomID :: string
  GetRatePerHour :: "int64 option"
  Now :: time
  hostAddress :: string
  CreateSessionOk :: bool

datatype panic = IntegerDivideByZero | SliceBoundsOutOfRange

definition currentRatePerHour :: "int64 option \<Rightarrow> int64" where
  "currentRatePerHour r =
     (case r of None \<Rightarrow> 500 | Some ratePerHour \<Rightarrow> if sint ratePerHour \<le> 0 then 500 else ratePerHour)"

definition sessionMinutes :: "int64 \<Rightarrow> int64 \<Rightarrow> int64 option" where
  "sessionMinutes usableCKB ratePerHour =
     div_int64 (usableCKB * 100000000) (ratePerMinShannons ratePerHour)"

text \<open>
  The result is the row written to the store: \<open>Inr None\<close> when \<open>CreateSession\<close> fails
  and the function returns the empty string, \<open>Inl\<close> when the division panics.
\<close>

definition createSessionFromWallet ::
  "Server \<Rightarrow> create_env \<Rightarrow> GuestWallet \<Rightarrow> int64 \<Rightarrow> panic + Session option" where
  "createSessionFromWallet s env wallet balanceCKB =
     (let sessionID = randomID env;
          reservedCKB = channelSetupCKB s;
          usableCKB = (if sint (balanceCKB - reservedCKB) < 0 then 0
                       else balanceCKB - reservedCKB);
          ratePerHour = currentRatePerHour (GetRatePerHour env)
      in case sessionMinutes usableCKB ratePerHour of
           None \<Rightarrow> Inl IntegerDivideByZero
         | Some minutes \<Rightarrow>
             (let now = Now env;
                  sessionDuration = minutes * Minute;
                  session = \<lparr>session_ID = sessionID,
                             WalletID = wallet_ID wallet,
                             session_GuestAddress = Address wallet,
                             HostAddress = hostAddress env,
                             FundingCKB = balanceCKB,
                             BalanceCKB = usableCKB,
                             SpentCKB = 0,
                             session_CreatedAt = now,
                             session_ExpiresAt = Add now sessionDuration,
                             Status = ''active'',
                             session_MACAddress = MACAddress wallet,
                             session_IPAddress = IPAddress wallet\<rparr>
              in if CreateSessionOk env then Inr (Some session) else Inr None))"

text \<open>
  What the server does, in the order it does it: the calls to the channel client, the
  store and the router, the \<open>go\<close> statements that start a settlement task, and
  \<open>DeleteSession\<close> for the statement \<open>delete(s.sessions, sessionID)\<close>. An effect on a
  session carries the key under which the registry holds the session.
\<close>

datatype effect =
    SettleExpiredSession string GuestSession
  | SettleSessionInBackground string GuestSession
  | SendPayment string int
  | UpdateSessionBalance string int64 int64
  | UpdateSessionStatus string string
  | UpdateSessionChannel string string
  | UpdateWalletStatus string string
  | ExtendSession string int64 int64
  | DeauthorizeMAC string
  | CloseClient string
  | DeleteSession string

fun effect_key :: "effect \<Rightarrow> string option" where
  "effect_key (SettleExpiredSession k s) = Some k"
| "effect_key (SettleSessionInBackground k s) = Some k"
| "effect_key (SendPayment k a) = Some k"
| "effect_key (UpdateSessionBalance k b sp) = Some k"
| "effect_key (UpdateSessionStatus k st) = Some k"
| "effect_key (UpdateSessionChannel k st) = Some k"
| "effect_key (ExtendSession k m a) = Some k"
| "effect_key (CloseClient k) = Some k"
| "effect_key (DeleteSession k) = Some k"
| "effect_key (UpdateWalletStatus w st) = None"
| "effect_key (DeauthorizeMAC mac) = None"

fun is_settlement :: "string \<Rightarrow> effect \<Rightarrow> bool" where
  "is_settlement k (SettleExpiredSession k' s) = (k' = k)"
| "is_settlement k (SettleSessionInBackground k' s) = (k' = k)"
| "is_settlement k e = False"

fun is_payment :: "string \<Rightarrow> effect \<Rightarrow> bool" where
  "is_payment k (SendPayment k' a) = (k' = k)"
| "is_payment k e = False"

fun is_store_write :: "string \<Rightarrow> effect \<Rightarrow> bool" where
  "is_store_write k (UpdateSessionBalance k' b sp) = (k' = k)"
| "is_store_write k (UpdateSessionStatus k' st) = (k' = k)"
| "is_store_write k (UpdateSessionChannel k' st) = (k' = k)"
| "is_store_write k (ExtendSession k' m a) = (k' = k)"
| "is_store_write k e = False"

text \<open>Division of an \<open>int64\<close> by the constant 100000000.\<close>

definition toCKB :: "int64 \<Rightarrow> int64" where
  "toCKB x = word_of_int (sint x sdiv 100000000)"

text \<open>
  One iteration of the loop of \<open>processMicropayments\<close>, for the session under key
  \<open>sessionID\<close>: \<open>now\<close> is what \<open>time.Now()\<close> returns in this iteration, \<open>payOk\<close> whether
  \<open>SendPayment\<close> returns no error. The first component is what the registry holds
  under the key afterwards, \<open>None\<close> once \<open>delete(s.sessions, sessionID)\<close> has run.
\<close>

definition process_session ::
  "time \<Rightarrow> bool \<Rightarrow> int \<Rightarrow> string \<Rightarrow> GuestSession \<Rightarrow> GuestSession option \<times> effect list" where
  "process_session now payOk rate sessionID session =
     (if ExpiresAt session < now
      then (None, [SettleExpiredSession sessionID session, DeleteSession sessionID])
      else if FundingAmount session - TotalPaid session < rate
      then (None, [SettleExpiredSession sessionID session, DeleteSession sessionID])
      else if \<not> payOk
      then (Some session, [SendPayment sessionID rate])
      else (let session' = session\<lparr>TotalPaid := TotalPaid session + rate\<rparr>;
                spentCKB = toCKB (Int64 (TotalPaid session'));
                balanceCKB = toCKB (Int64 (FundingAmount session') - Int64 (TotalPaid session'))
            in (Some session',
                [SendPayment sessionID rate,
                 UpdateSessionBalance sessionID balanceCKB spentCKB])))"

text \<open>
  The \<open>range\<close> loop visits the keys of the map in an order Go does not fix; the order
  is the argument \<open>keys\<close>. Only the entry of the current key is changed or deleted.
\<close>

fun range_sessions ::
  "(string \<Rightarrow> time) \<Rightarrow> (string \<Rightarrow> bool) \<Rightarrow> int \<Rightarrow> string list \<Rightarrow>
   (string \<rightharpoonup> GuestSession) \<times> effect list \<Rightarrow> (string \<rightharpoonup> GuestSession) \<times> effect list" where
  "range_sessions clock pay rate [] st = st"
| "range_sessions clock pay rate (sessionID # keys) (m, effects) =
     (case m sessionID of
        None \<Rightarrow> range_sessions clock pay rate keys (m, effects)
      | Some session \<Rightarrow>
          (case process_session (clock sessionID) (pay sessionID) rate sessionID session of
             (r, es) \<Rightarrow> range_sessions clock pay rate keys (m(sessionID := r), effects @ es)))"

definition processMicropayments ::
  "Server \<Rightarrow> (string \<Rightarrow> time) \<Rightarrow> (string \<Rightarrow> bool) \<Rightarrow> string list \<Rightarrow> Server \<times> effect list" where
  "processMicropayments s clock pay keys =
     (case range_sessions clock pay (ratePerMin s) keys (sessions s, []) of
        (m, effects) \<Rightarrow> (s\<lparr>sessions := m\<rparr>, effects))"

section \<open>The request handlers\<close>

datatype response = StatusOK | StatusBadRequest | StatusNotFound

text \<open>
  \<open>handleEndSession\<close>. The lookup and the \<open>delete\<close> happen under the registry lock.
  \<open>macOf\<close> is the MAC address of the row \<open>GetSession\<close> returns, \<open>None\<close> for an error.
\<close>

definition handleEndSession ::
  "Server \<Rightarrow> (string \<Rightarrow> string option) \<Rightarrow> string \<Rightarrow> response \<times> Server \<times> effect list" where
  "handleEndSession s macOf sessionID =
     (case sessions s sessionID of
        None \<Rightarrow> (StatusNotFound, s, [])
      | Some session \<Rightarrow>
          (StatusOK,
           s\<lparr>sessions := (sessions s)(sessionID := None)\<rparr>,
           [DeleteSession sessionID, UpdateSessionStatus sessionID ''settling''] @
           (case macOf sessionID of
              None \<Rightarrow> []
            | Some mac \<Rightarrow> if mac \<noteq> [] then [DeauthorizeMAC mac] else []) @
           [SettleSessionInBackground sessionID session]))"

text \<open>\<open>(*big.Int).Div\<close> is Euclidean division and panics on a zero divisor.\<close>

definition big_Div :: "int \<Rightarrow> int \<Rightarrow> int option" where
  "big_Div x y =
     (if y = 0 then None
      else if 0 < y then Some (x div y)
      else Some (- (x div (- y))))"

text \<open>
  \<open>handleExtendSession\<close>. \<open>amount\<close> is the decimal integer of the request, \<open>None\<close>
  when the request does not bind or the string does not parse.
\<close>

definition handleExtendSession ::
  "Server \<Rightarrow> bool \<Rightarrow> string \<Rightarrow> int option \<Rightarrow> panic + response \<times> Server \<times> effect list" where
  "handleExtendSession s payOk sessionID amount =
     (case amount of
        None \<Rightarrow> Inr (StatusBadRequest, s, [])
      | Some amountCKB \<Rightarrow>
          if amountCKB \<le> 0 then Inr (StatusBadRequest, s, [])
          else (case sessions s sessionID of
                  None \<Rightarrow> Inr (StatusNotFound, s, [])
                | Some session \<Rightarrow>
                    (let amountShannons = amountCKB * 100000000 in
                     if \<not> payOk
                     then Inr (StatusBadRequest, s, [SendPayment sessionID amountShannons])
                     else (case big_Div amountShannons (ratePerMin s) of
                             None \<Rightarrow> Inl IntegerDivideByZero
                           | Some q \<Rightarrow>
                               (let additionalMins = Int64 q;
                                    session' = session
                                      \<lparr>TotalPaid := TotalPaid session + amountShannons,
                                       ExpiresAt := Add (ExpiresAt session) (additionalMins * Minute)\<rparr>
                                in Inr (StatusOK,
                                        s\<lparr>sessions := (sessions s)(sessionID \<mapsto> session')\<rparr>,
                                        [SendPayment sessionID amountShannons,
                                         ExtendSession sessionID additionalMins (Int64 amountCKB)]))))))"

section \<open>Opening the channel of a funded session\<close>

text \<open>
  What \<open>openChannelForSession\<close> takes from outside: whether the key decodes, the
  lock script of the wallet address (\<open>None\<close> when it does not decode), whether the
  channel client is created, the identifier of the channel the proposal opens (\<open>None\<close>
  when it fails), the creation and expiry instants of the stored session (\<open>None\<close> when
  \<open>GetSession\<close> fails) and the whole minutes elapsed since creation as the conversion
  \<open>int64(elapsedTime.Minutes())\<close> gives them. The error of the catch-up payment is only
  logged: with or without it the session is registered with the same fields.
\<close>

record open_env =
  keyDecodes :: bool
  guestLockScript :: "script option"
  clientCreated :: bool
  proposedChannel :: "string option"
  dbSession :: "(time \<times> time) option"
  elapsed :: int64

definition openChannelForSession ::
  "Server \<Rightarrow> node \<Rightarrow> open_env \<Rightarrow> GuestWallet \<Rightarrow> string \<Rightarrow> int64 \<Rightarrow>
   panic + Server \<times> node \<times> effect list" where
  "openChannelForSession s n env wallet sessionID balanceCKB =
     (if \<not> keyDecodes env then Inr (s, n, [])
      else if length (PrivateKeyHex wallet) < 16 then Inl SliceBoundsOutOfRange
      else (case guestLockScript env of
        None \<Rightarrow> Inr (s, n, [UpdateSessionStatus sessionID ''channel_failed''])
      | Some lockScript \<Rightarrow>
          (case EnsureMinimumCells n lockScript 4 of
             (Some e, n1) \<Rightarrow>
               Inr (s, n1, [UpdateSessionStatus sessionID ''cell_preparation_failed''])
           | (None, n1) \<Rightarrow>
               (case CountCells n1 lockScript of
                  (guestCellCount, n2) \<Rightarrow>
                    if length sessionID < 8 then Inl SliceBoundsOutOfRange
                    else if \<not> clientCreated env
                    then Inr (s, n2, [UpdateSessionStatus sessionID ''channel_failed''])
                    else if sint balanceCKB < sint (channelSetupCKB s)
                    then Inr (s, n2, [UpdateSessionStatus sessionID ''insufficient_funds'',
                                      CloseClient sessionID])
                    else
                      (let reservedCKB = channelSetupCKB s;
                           fundingCKB = balanceCKB - reservedCKB;
                           guestFunding = sint (fundingCKB * 100000000)
                       in case proposedChannel env of
                            None \<Rightarrow>
                              Inr (s, n2,
                                   [UpdateSessionStatus sessionID ''channel_opening'',
                                    CloseClient sessionID,
                                    UpdateSessionStatus sessionID ''channel_failed''] @
                                   (if MACAddress wallet \<noteq> []
                                    then [DeauthorizeMAC (MACAddress wallet)] else []))
                          | Some channelID \<Rightarrow>
                              (case dbSession env of
                                 None \<Rightarrow>
                                   Inr (s, n2,
                                        [UpdateSessionStatus sessionID ''channel_opening'',
                                         UpdateSessionChannel sessionID channelID,
                                         UpdateWalletStatus (wallet_ID wallet) ''channel_open''])
                               | Some (createdAt, expiresAt) \<Rightarrow>
                                   (let elapsedMinutes =
                                          (if sint (elapsed env) < 1 then 1 else elapsed env);
                                        catchUpShannons = sint elapsedMinutes * ratePerMin s;
                                        catchUpCKB = toCKB (Int64 catchUpShannons);
                                        guestSession =
                                          \<lparr>ID = sessionID,
                                           GuestAddress = Address wallet,
                                           FundingAmount = guestFunding,
                                           TotalPaid = catchUpShannons,
                                           CreatedAt = createdAt,
                                           ExpiresAt = expiresAt\<rparr>;
                                        newBalance = fundingCKB - catchUpCKB
                                    in Inr (s\<lparr>sessions := (sessions s)(sessionID \<mapsto> guestSession)\<rparr>,
                                            n2,
                                            [UpdateSessionStatus sessionID ''channel_opening'',
                                             UpdateSessionChannel sessionID channelID,
                                             UpdateWalletStatus (wallet_ID wallet) ''channel_open''] @
                                            (if 0 < catchUpShannons
                                             then [SendPayment sessionID catchUpShannons] else []) @
                                            [UpdateSessionBalance sessionID newBalance catchUpCKB]))))))))"

section \<open>Notions used in the statements\<close>

text \<open>
  The cells the ledger holds under a lock script, and the bare ones among them, those
  without a type script. They are all the cells of the address; a cell query returns
  the first hundred of them.
\<close>

definition wallet_cells :: "node \<Rightarrow> script \<Rightarrow> LiveCell list" where
  "wallet_cells n lockScript = filter (\<lambda>c. Lock (Output c) = lockScript) (live n)"

definition bare_cells :: "node \<Rightarrow> script \<Rightarrow> LiveCell list" where
  "bare_cells n lockScript = filter (\<lambda>c. Type (Output c) = None) (wallet_cells n lockScript)"

fun is_InsufficientBalance :: "error + hash \<Rightarrow> bool" where
  "is_InsufficientBalance (Inl (InsufficientBalance t)) = True"
| "is_InsufficientBalance r = False"

text \<open>
  The inputs of the examples: a host that charges 500 CKB per hour and reserves 1000 CKB
  for the channel, a guest session of 500 CKB that expires after an hour, a wallet with
  a single bare cell, and a guest wallet prepared with four bare cells.
\<close>

definition host :: Server where
  "host = NewServer \<lparr>RatePerHour = 500, ChannelSetupCKB = 1000\<rparr>"

definition guest :: "int \<Rightarrow> GuestSession" where
  "guest paid =
     \<lparr>ID = ''a1b2c3d4e5f60718'', GuestAddress = ''ckt1guest'',
      FundingAmount = 50000000000, TotalPaid = paid,
      CreatedAt = 0, ExpiresAt = 3600000000000\<rparr>"

definition serving :: "int \<Rightarrow> Server" where
  "serving paid = host\<lparr>sessions := [''a1b2c3d4e5f60718'' \<mapsto> guest paid]\<rparr>"

definition wallet_node :: "uint64 \<Rightarrow> node" where
  "wallet_node c =
     \<lparr>live = [\<lparr>OutPoint = (7, 0), Output = \<lparr>Capacity = c, Lock = 5, Type = None\<rparr>\<rparr>],
      sent = [], faults = [], fates = []\<rparr>"

definition guest_node :: node where
  "guest_node =
     \<lparr>live = [\<lparr>OutPoint = (7, 0), Output = \<lparr>Capacity = 25125000000, Lock = 5, Type = None\<rparr>\<rparr>,
              \<lparr>OutPoint = (7, 1), Output = \<lparr>Capacity = 25125000000, Lock = 5, Type = None\<rparr>\<rparr>,
              \<lparr>OutPoint = (7, 2), Output = \<lparr>Capacity = 25125000000, Lock = 5, Type = None\<rparr>\<rparr>,
              \<lparr>OutPoint = (7, 3), Output = \<lparr>Capacity = 25125000000, Lock = 5, Type = None\<rparr>\<rparr>],
      sent = [], faults = [], fates = []\<rparr>"


definition large_wallet_node :: node where
  "large_wallet_node =
     \<lparr>live = map (\<lambda>i. \<lparr>OutPoint = (7, i),
                          Output = \<lparr>Capacity = 10000000000, Lock = 5, Type = None\<rparr>\<rparr>) [0..<101],
      sent = [], faults = [], fates = []\<rparr>"

section \<open>The split arithmetic and the termination of the split loop\<close>

lemma minSplitCapacity_value: "minSplitCapacity = 12200100000"
  by (simp add: minSplitCapacity_def CellMinCapacity_def SplitFee_def)

lemma splittable_unat:
  assumes "minSplitCapacity \<le> c"
  shows "12200100000 \<le> unat c"
proof -
  have "unat (12200100000 :: uint64) \<le> unat c"
    using assms unfolding minSplitCapacity_value by (simp only: word_le_nat_alt)
  then show ?thesis by simp
qed

lemma unat_available:
  assumes "minSplitCapacity \<le> c"
  shows "unat (c - SplitFee) = unat c - 100000"
proof -
  have "unat SplitFee \<le> unat c"
    using splittable_unat [OF assms] by (simp add: SplitFee_def)
  then have "unat (c - SplitFee) = unat c - unat SplitFee"
    by (simp add: unat_sub word_le_nat_alt)
  then show ?thesis by (simp add: SplitFee_def)
qed

lemma unat_half:
  assumes "minSplitCapacity \<le> c"
  shows "unat ((c - SplitFee) div 2) = (unat c - 100000) div 2"
  by (simp add: unat_div unat_available [OF assms])

lemma no_raise:
  assumes "minSplitCapacity \<le> c"
  shows "\<not> raise_branch c"
proof -
  have "6100000000 \<le> (unat c - 100000) div 2"
    using splittable_unat [OF assms] by simp
  then have "unat CellMinCapacity \<le> unat ((c - SplitFee) div 2)"
    by (simp add: unat_half [OF assms] CellMinCapacity_def)
  then show ?thesis
    by (simp add: raise_branch_def word_less_nat_alt)
qed

lemma split_capacities_even:
  assumes "minSplitCapacity \<le> c"
  shows "split_capacities c = ((c - SplitFee) div 2, (c - SplitFee) - (c - SplitFee) div 2)"
  by (simp add: split_capacities_def Let_def no_raise [OF assms])

lemma unat_second:
  assumes "minSplitCapacity \<le> c"
  shows "unat ((c - SplitFee) - (c - SplitFee) div 2) = (unat c - 100000) - (unat c - 100000) div 2"
proof -
  have "(c - SplitFee) div 2 \<le> c - SplitFee"
    by (simp add: word_le_nat_alt unat_div)
  then have "unat ((c - SplitFee) - (c - SplitFee) div 2) = unat (c - SplitFee) - unat ((c - SplitFee) div 2)"
    by (simp add: unat_sub)
  then show ?thesis
    by (simp add: unat_half [OF assms] unat_available [OF assms])
qed

lemma split_capacities_sum:
  assumes "minSplitCapacity \<le> c"
  shows "unat (fst (split_capacities c)) + unat (snd (split_capacities c)) = unat c - 100000"
  by (simp add: split_capacities_even [OF assms] unat_half [OF assms] unat_second [OF assms])

lemma pick_cell_sound:
  assumes "pick_cell cells best = Some c"
    and "\<And>b. best = Some b \<Longrightarrow> b \<in> S \<and> minSplitCapacity \<le> Capacity (Output b)"
    and "set cells \<subseteq> S"
  shows "c \<in> S \<and> minSplitCapacity \<le> Capacity (Output c)"
  using assms
proof (induction cells arbitrary: best)
  case Nil
  then show ?case by simp
next
  case (Cons cell cells)
  show ?case
  proof (rule Cons.IH)
    show "pick_cell cells (if minSplitCapacity \<le> Capacity (Output cell)
        then (case best of None \<Rightarrow> Some cell
              | Some b \<Rightarrow> if Capacity (Output b) < Capacity (Output cell) then Some cell else Some b)
        else best) = Some c"
      using Cons.prems(1) by simp
    show "set cells \<subseteq> S" using Cons.prems(3) by simp
    fix b
    assume "(if minSplitCapacity \<le> Capacity (Output cell)
        then (case best of None \<Rightarrow> Some cell
              | Some b \<Rightarrow> if Capacity (Output b) < Capacity (Output cell) then Some cell else Some b)
        else best) = Some b"
    then show "b \<in> S \<and> minSplitCapacity \<le> Capacity (Output b)"
      using Cons.prems(2,3) by (auto split: if_splits option.splits)
  qed
qed

lemma total_capacity_append:
  "total_capacity (xs @ ys) = total_capacity xs + total_capacity ys"
  by (simp add: total_capacity_def)

lemma total_capacity_filter:
  assumes "c \<in> set cells" and "\<not> P c"
  shows "total_capacity (filter P cells) + unat (Capacity (Output c)) \<le> total_capacity cells"
  using assms
proof (induction cells)
  case Nil
  then show ?case by simp
next
  case (Cons x xs)
  have le: "total_capacity (filter P xs) \<le> total_capacity xs"
    unfolding total_capacity_def by (induction xs) auto
  show ?case
  proof (cases "x = c")
    case True
    then show ?thesis using Cons.prems le by (simp add: total_capacity_def)
  next
    case False
    then have "c \<in> set xs" using Cons.prems by simp
    from Cons.IH [OF this Cons.prems(2)] show ?thesis
      by (simp add: total_capacity_def)
  qed
qed

lemma rpc_call_live: "rpc_call n = (b, n') \<Longrightarrow> live n' = live n"
  by (auto simp: rpc_call_def split: list.splits)

lemma CountCells_live: "CountCells n l = (r, n') \<Longrightarrow> live n' = live n"
  by (auto simp: CountCells_def rpc_GetCells_def split: prod.splits bool.splits dest: rpc_call_live)

lemma GetCells_Inr:
  assumes "GetCells n l = (Inr cells, n1)"
  shows "live n1 = live n \<and> sent n1 = sent n \<and> set cells \<subseteq> set (live n)"
proof -
  obtain b m where c: "rpc_call n = (b, m)" by (cases "rpc_call n")
  from assms c have "b = False" and "m = n1"
    and cells: "cells = filter (\<lambda>c. Type (Output c) = None) (take 100 (filter (\<lambda>c. Lock (Output c) = l) (live n)))"
    by (auto simp: GetCells_def rpc_GetCells_def split: bool.splits)
  from c \<open>m = n1\<close> have "live n1 = live n" "sent n1 = sent n"
    by (auto simp: rpc_call_def split: list.splits)
  moreover have "set cells \<subseteq> set (live n)"
    unfolding cells using set_take_subset [of 100 "filter (\<lambda>c. Lock (Output c) = l) (live n)"] by auto
  ultimately show ?thesis by simp
qed

lemma rpc_SendTransaction_Inr:
  assumes "rpc_SendTransaction n tx = (Inr h, n')"
  shows "live n' = live n \<and> sent n' = sent n @ [tx] \<and> fates n' = fates n"
  using assms
  by (auto simp: rpc_SendTransaction_def rpc_call_def split: list.splits bool.splits prod.splits)

lemma waitForConfirmation_None:
  assumes "waitForConfirmation n h tx = (None, n')"
  shows "live n' = commit_tx h tx (live n) \<and> sent n' = sent n"
  using assms
  by (auto simp: waitForConfirmation_def split: list.splits tx_fate.splits)

lemma SplitCell_Inr:
  assumes "SplitCell n l = (Inr h, n')"
  obtains c where "c \<in> set (live n)" and "minSplitCapacity \<le> Capacity (Output c)"
    and "live n' = commit_tx h (split_tx c l) (live n)"
    and "sent n' = sent n @ [split_tx c l]"
proof -
  obtain r n1 where g: "GetCells n l = (r, n1)" by (cases "GetCells n l")
  with assms obtain cells where r: "r = Inr cells"
    by (cases r) (auto simp: SplitCell_def)
  note g1 = GetCells_Inr [OF g [unfolded r]]
  from assms g r obtain c where p: "pick_cell cells None = Some c"
    by (cases "pick_cell cells None") (auto simp: SplitCell_def split: if_splits)
  obtain r2 n2 where s: "rpc_SendTransaction n1 (split_tx c l) = (r2, n2)"
    by (cases "rpc_SendTransaction n1 (split_tx c l)")
  with assms g r p have r2: "r2 = Inr h"
    by (cases r2) (auto simp: SplitCell_def split: if_splits prod.splits option.splits)
  note s1 = rpc_SendTransaction_Inr [OF s [unfolded r2]]
  from assms g r p s r2 have w: "waitForConfirmation n2 h (split_tx c l) = (None, n')"
    by (auto simp: SplitCell_def split: if_splits prod.splits option.splits)
  note w1 = waitForConfirmation_None [OF w]
  have "c \<in> set (live n) \<and> minSplitCapacity \<le> Capacity (Output c)"
    by (rule pick_cell_sound [OF p]) (use g1 in auto)
  then show ?thesis
    using that [of c] g1 s1 w1 by simp
qed

lemma total_capacity_commit_split:
  assumes "c \<in> set cells" and "minSplitCapacity \<le> Capacity (Output c)"
  shows "total_capacity (commit_tx h (split_tx c l) cells) + 100000 \<le> total_capacity cells"
proof -
  let ?P = "\<lambda>x. OutPoint x \<notin> set (Inputs (split_tx c l))"
  have np: "\<not> ?P c" by (simp add: split_tx_def split: prod.splits)
  obtain c1 c2 where sc: "split_capacities (Capacity (Output c)) = (c1, c2)"
    by (cases "split_capacities (Capacity (Output c))")
  have "unat c1 + unat c2 = unat (Capacity (Output c)) - 100000"
    using split_capacities_sum [OF assms(2)] by (simp add: sc)
  then have new: "total_capacity (new_cells h (Outputs (split_tx c l))) = unat (Capacity (Output c)) - 100000"
    by (simp add: new_cells_def split_tx_def total_capacity_def sc)
  have "100000 \<le> unat (Capacity (Output c))"
    using splittable_unat [OF assms(2)] by simp
  then show ?thesis
    using total_capacity_filter [of c cells ?P, OF assms(1) np] new
    by (simp add: commit_tx_def total_capacity_append)
qed

lemma SplitCell_decreases:
  assumes "SplitCell n l = (Inr h, n')"
  shows "total_capacity (live n') < total_capacity (live n)"
proof -
  from assms obtain c where "c \<in> set (live n)" "minSplitCapacity \<le> Capacity (Output c)"
    "live n' = commit_tx h (split_tx c l) (live n)"
    by (rule SplitCell_Inr)
  then show ?thesis
    using total_capacity_commit_split [of c "live n" h l] by simp
qed

lemma split_loop_step:
  assumes "(Inr h, n1) = SplitCell n l" and "(Inr c, n2) = CountCells n1 l"
  shows "total_capacity (live n2) < total_capacity (live n)"
  using SplitCell_decreases [OF assms(1) [symmetric]] CountCells_live [OF assms(2) [symmetric]]
  by simp

termination split_loop
  apply (relation "measure (\<lambda>(n, lockScript, minCells, count). total_capacity (live n))")
   apply simp
  apply simp
  apply (erule split_loop_step)
  apply assumption
  done

declare split_loop.simps [simp del]

section \<open>Cell splitting\<close>

lemma pick_cell_splittable:
  assumes "pick_cell cells None = Some c"
  shows "c \<in> set cells \<and> minSplitCapacity \<le> Capacity (Output c)"
  by (rule pick_cell_sound [OF assms]) simp_all

lemma split_outputs_floor:
  assumes "minSplitCapacity \<le> c"
  shows "CellMinCapacity \<le> fst (split_capacities c) \<and> CellMinCapacity \<le> snd (split_capacities c)"
proof -
  have half: "6100000000 \<le> (unat c - 100000) div 2"
    using splittable_unat [OF assms] by simp
  have "unat CellMinCapacity \<le> unat ((c - SplitFee) div 2)"
    using half by (simp add: unat_half [OF assms] CellMinCapacity_def)
  moreover have "unat CellMinCapacity \<le> unat ((c - SplitFee) - (c - SplitFee) div 2)"
    using half by (simp add: unat_second [OF assms] CellMinCapacity_def)
  ultimately show ?thesis
    by (simp add: split_capacities_even [OF assms] word_le_nat_alt)
qed

text \<open>
  Claim C9. A cell that the selection loop of \<open>SplitCell\<close> picks has a capacity of at
  least \<open>2 * CellMinCapacity + SplitFee\<close>. For such a cell the even half
  \<open>(capacity - SplitFee) / 2\<close> is already at least \<open>CellMinCapacity\<close>, so the branch
  that raises \<open>cell1Capacity\<close> to \<open>CellMinCapacity\<close> is never taken, and both output
  capacities meet the minimum.
\<close>

theorem splittable_cell_never_raised:
  assumes "pick_cell cells None = Some cellToSplit"
  shows "minSplitCapacity \<le> Capacity (Output cellToSplit)
    \<and> CellMinCapacity \<le> (Capacity (Output cellToSplit) - SplitFee) div 2
    \<and> \<not> raise_branch (Capacity (Output cellToSplit))
    \<and> CellMinCapacity \<le> fst (split_capacities (Capacity (Output cellToSplit)))
    \<and> CellMinCapacity \<le> snd (split_capacities (Capacity (Output cellToSplit)))"
proof -
  have sp: "minSplitCapacity \<le> Capacity (Output cellToSplit)"
    using pick_cell_splittable [OF assms] by simp
  have "\<not> raise_branch (Capacity (Output cellToSplit))"
    by (rule no_raise [OF sp])
  then have "CellMinCapacity \<le> (Capacity (Output cellToSplit) - SplitFee) div 2"
    by (simp add: raise_branch_def)
  with sp no_raise [OF sp] split_outputs_floor [OF sp] show ?thesis by simp
qed

theorem splittable_cell_never_raised_witness:
  "pick_cell [\<lparr>OutPoint = (7, 0), Output = \<lparr>Capacity = 20000000000, Lock = 1, Type = None\<rparr>\<rparr>] None
     = Some \<lparr>OutPoint = (7, 0), Output = \<lparr>Capacity = 20000000000, Lock = 1, Type = None\<rparr>\<rparr>
   \<and> \<not> raise_branch 20000000000
   \<and> split_capacities 20000000000 = (9999950000, 9999950000)
   \<and> CellMinCapacity \<le> 9999950000"
  using splittable_cell_never_raised
    [of "[\<lparr>OutPoint = (7, 0), Output = \<lparr>Capacity = 20000000000, Lock = 1, Type = None\<rparr>\<rparr>]"
        "\<lparr>OutPoint = (7, 0), Output = \<lparr>Capacity = 20000000000, Lock = 1, Type = None\<rparr>\<rparr>"]
  by (simp add: minSplitCapacity_value split_capacities_def raise_branch_def SplitFee_def CellMinCapacity_def)


lemma rpc_GetCells_all:
  assumes "rpc_call n = (False, n1)" and "length (wallet_cells n lockScript) \<le> 100"
  shows "rpc_GetCells n lockScript = (Inr (wallet_cells n lockScript), n1)"
  using assms by (simp add: rpc_GetCells_def wallet_cells_def)











section \<open>Withdrawal\<close>

lemma collect_inputs_eq:
  assumes "\<forall>c \<in> set cells. Lock (Output c) = l"
  shows "collect_inputs l cells (t, ins) =
    (t + of_nat (total_capacity (filter (\<lambda>c. Type (Output c) = None) cells)),
     ins @ map OutPoint (filter (\<lambda>c. Type (Output c) = None) cells))"
  using assms
proof (induction cells arbitrary: t ins)
  case Nil
  then show ?case by (simp add: total_capacity_def)
next
  case (Cons c cells)
  then show ?case by (simp add: total_capacity_def)
qed

lemma collect_inputs_wallet:
  "collect_inputs l (wallet_cells n l) (0, []) =
    (of_nat (total_capacity (bare_cells n l)), map OutPoint (bare_cells n l))"
  using collect_inputs_eq [of "wallet_cells n l" l 0 "[]"]
  by (simp add: wallet_cells_def bare_cells_def)

lemma withdraw_threshold: "unat WithdrawFee + unat MinCellCapacity = 6100100000"
  and withdraw_threshold_word: "WithdrawFee + MinCellCapacity = 6100100000"
  by (simp_all add: WithdrawFee_def MinCellCapacity_def)

lemma rpc_call_sent: "rpc_call n = (b, n') \<Longrightarrow> sent n' = sent n"
  by (auto simp: rpc_call_def split: list.splits)

lemma WithdrawAll_bare_cells:
  assumes dec: "decodeAddressToScript toAddress = Some toLockScript"
    and up: "rpc_call n = (False, n1)"
    and all: "length (wallet_cells n fromLockScript) \<le> 100"
    and ne: "bare_cells n fromLockScript \<noteq> []"
  shows "WithdrawAll decodeAddressToScript n fromLockScript toAddress =
    (if (of_nat (total_capacity (bare_cells n fromLockScript)) :: uint64) \<le> WithdrawFee + MinCellCapacity
     then (Inl (InsufficientBalance (of_nat (total_capacity (bare_cells n fromLockScript)))), n1)
     else (case rpc_SendTransaction n1
                  (withdraw_tx (map OutPoint (bare_cells n fromLockScript))
                     (of_nat (total_capacity (bare_cells n fromLockScript)) - WithdrawFee) toLockScript) of
             (Inl e, n2) \<Rightarrow> (Inl (FailedToSendTransaction e), n2)
           | (Inr txHash, n2) \<Rightarrow> (Inr txHash, n2)))"
proof -
  note g = rpc_GetCells_all [OF up all]
  have cells: "wallet_cells n fromLockScript \<noteq> []"
    using ne unfolding bare_cells_def by auto
  show ?thesis
    using cells ne by (simp add: WithdrawAll_def dec g collect_inputs_wallet)
qed

lemma WithdrawAll_no_bare_cells:
  assumes dec: "decodeAddressToScript toAddress = Some toLockScript"
    and up: "rpc_call n = (False, n1)"
    and all: "length (wallet_cells n fromLockScript) \<le> 100"
    and none: "bare_cells n fromLockScript = []"
  shows "WithdrawAll decodeAddressToScript n fromLockScript toAddress =
    (if wallet_cells n fromLockScript = []
     then (Inl NoCellsInWallet, n1) else (Inl NoWithdrawableCells, n1))"
proof -
  note g = rpc_GetCells_all [OF up all]
  have c: "collect_inputs fromLockScript (wallet_cells n fromLockScript) (0, []) = (0, [])"
    using none by (simp add: collect_inputs_wallet total_capacity_def)
  show ?thesis
    by (simp add: WithdrawAll_def dec g c)
qed

text \<open>
  Claim C7, amended. The claim as stated fails in two ways (see the counterexample
  below). A wallet with no cell has a total below the threshold, but \<open>WithdrawAll\<close>
  returns the error "no cells found in wallet", not the insufficient-balance error. And
  \<open>WithdrawAll\<close> sees the first hundred cells of the wallet only: for a wallet of a
  hundred and one bare cells the output of the transaction is the sum of the first
  hundred minus the fee, not the sum of all of them minus the fee. What holds: let the
  wallet have at most a hundred cells, so that the cell query returns all of them, let
  the destination address decode and the cell query return no error, and let the
  capacities of the bare cells of the wallet sum to \<open>total < 2^64\<close>.
  \<^item> If the wallet has at least one bare cell and \<open>total \<le> WithdrawFee + MinCellCapacity\<close>,
    \<open>WithdrawAll\<close> fails with the insufficient-balance error and has submitted no
    transaction.
  \<^item> If the wallet has no bare cell, \<open>WithdrawAll\<close> fails with one of the two no-cells
    errors and has submitted no transaction.
  \<^item> Whenever \<open>WithdrawAll\<close> succeeds, \<open>total\<close> exceeds the threshold and exactly one
    transaction has been submitted, which spends the bare cells of the wallet and has a
    single output of capacity \<open>total - WithdrawFee\<close>, locked to the destination and bare.
\<close>

theorem withdraw_all_outcomes:
  assumes dec: "decodeAddressToScript toAddress = Some toLockScript"
    and up: "rpc_call n = (False, n1)"
    and all: "length (wallet_cells n fromLockScript) \<le> 100"
    and fit: "total_capacity (bare_cells n fromLockScript) < 2 ^ 64"
  shows "(bare_cells n fromLockScript \<noteq> [] \<and>
          total_capacity (bare_cells n fromLockScript) \<le> unat WithdrawFee + unat MinCellCapacity \<longrightarrow>
            WithdrawAll decodeAddressToScript n fromLockScript toAddress =
              (Inl (InsufficientBalance (of_nat (total_capacity (bare_cells n fromLockScript)))), n1)
          \<and> sent n1 = sent n)
    \<and> (bare_cells n fromLockScript = [] \<longrightarrow>
            (WithdrawAll decodeAddressToScript n fromLockScript toAddress = (Inl NoCellsInWallet, n1)
             \<or> WithdrawAll decodeAddressToScript n fromLockScript toAddress = (Inl NoWithdrawableCells, n1))
          \<and> sent n1 = sent n)
    \<and> (\<forall>txHash n'. WithdrawAll decodeAddressToScript n fromLockScript toAddress = (Inr txHash, n') \<longrightarrow>
          unat WithdrawFee + unat MinCellCapacity < total_capacity (bare_cells n fromLockScript)
          \<and> (\<exists>outputCapacity.
                unat outputCapacity = total_capacity (bare_cells n fromLockScript) - unat WithdrawFee
              \<and> sent n' = sent n @
                  [\<lparr>Inputs = map OutPoint (bare_cells n fromLockScript),
                    Outputs = [\<lparr>Capacity = outputCapacity, Lock = toLockScript, Type = None\<rparr>]\<rparr>]))"
proof (intro conjI allI impI)
  let ?t = "total_capacity (bare_cells n fromLockScript)"
  have ut: "unat (of_nat ?t :: uint64) = ?t"
    using fit by (simp add: unat_of_nat)
  have le_iff: "(of_nat ?t :: uint64) \<le> WithdrawFee + MinCellCapacity \<longleftrightarrow> ?t \<le> 6100100000"
    by (simp add: withdraw_threshold_word word_le_nat_alt ut)
  {
    assume a: "bare_cells n fromLockScript \<noteq> [] \<and> ?t \<le> unat WithdrawFee + unat MinCellCapacity"
    then show "WithdrawAll decodeAddressToScript n fromLockScript toAddress =
        (Inl (InsufficientBalance (of_nat ?t)), n1)"
      using le_iff
      by (simp add: WithdrawAll_bare_cells
          [where decodeAddressToScript = decodeAddressToScript, OF dec up all] withdraw_threshold)
    show "sent n1 = sent n"
      using up by (rule rpc_call_sent)
  }
  {
    assume "bare_cells n fromLockScript = []"
    then show "WithdrawAll decodeAddressToScript n fromLockScript toAddress = (Inl NoCellsInWallet, n1)
          \<or> WithdrawAll decodeAddressToScript n fromLockScript toAddress = (Inl NoWithdrawableCells, n1)"
      by (simp add: WithdrawAll_no_bare_cells
          [where decodeAddressToScript = decodeAddressToScript, OF dec up all])
    show "sent n1 = sent n"
      using up by (rule rpc_call_sent)
  }
  {
    fix txHash n'
    assume ok: "WithdrawAll decodeAddressToScript n fromLockScript toAddress = (Inr txHash, n')"
    have ne: "bare_cells n fromLockScript \<noteq> []"
    proof
      assume "bare_cells n fromLockScript = []"
      then have "WithdrawAll decodeAddressToScript n fromLockScript toAddress =
          (if wallet_cells n fromLockScript = []
           then (Inl NoCellsInWallet, n1) else (Inl NoWithdrawableCells, n1))"
        by (rule WithdrawAll_no_bare_cells
            [where decodeAddressToScript = decodeAddressToScript, OF dec up all])
      with ok show False
        by (simp split: if_splits)
    qed
    note page = WithdrawAll_bare_cells
        [where decodeAddressToScript = decodeAddressToScript, OF dec up all ne]
    from ok page have big: "\<not> (of_nat ?t :: uint64) \<le> WithdrawFee + MinCellCapacity"
      by (auto split: if_splits)
    then show "unat WithdrawFee + unat MinCellCapacity < ?t"
      using le_iff by (simp add: withdraw_threshold)
    have fee: "WithdrawFee \<le> (of_nat ?t :: uint64)"
      using big le_iff by (simp add: word_le_nat_alt ut WithdrawFee_def)
    have out: "unat ((of_nat ?t :: uint64) - WithdrawFee) = ?t - unat WithdrawFee"
      using fee by (simp add: unat_sub ut)
    from ok page big have "rpc_SendTransaction n1
          (withdraw_tx (map OutPoint (bare_cells n fromLockScript)) (of_nat ?t - WithdrawFee) toLockScript)
        = (Inr txHash, n')"
      by (auto split: if_splits prod.splits sum.splits)
    then have "sent n' = sent n1 @
        [withdraw_tx (map OutPoint (bare_cells n fromLockScript)) (of_nat ?t - WithdrawFee) toLockScript]"
      by (simp add: rpc_SendTransaction_Inr)
    then have "sent n' = sent n @
        [\<lparr>Inputs = map OutPoint (bare_cells n fromLockScript),
          Outputs = [\<lparr>Capacity = of_nat ?t - WithdrawFee, Lock = toLockScript, Type = None\<rparr>]\<rparr>]"
      by (simp add: withdraw_tx_def rpc_call_sent [OF up])
    with out show "\<exists>outputCapacity.
                unat outputCapacity = ?t - unat WithdrawFee
              \<and> sent n' = sent n @
                  [\<lparr>Inputs = map OutPoint (bare_cells n fromLockScript),
                    Outputs = [\<lparr>Capacity = outputCapacity, Lock = toLockScript, Type = None\<rparr>]\<rparr>]"
      by blast
  }
qed

text \<open>
  The counterexample to claim C7 as stated. A wallet without cells has total capacity 0,
  and \<open>WithdrawAll\<close> fails with \<open>NoCellsInWallet\<close>. The wallet of \<open>large_wallet_node\<close>
  holds 10100 CKB in bare cells, and \<open>WithdrawAll\<close> succeeds with a single output of
  9999.999 CKB, the first hundred cells minus the fee.
\<close>

theorem withdraw_all_counterexample:
  "total_capacity (bare_cells \<lparr>live = [], sent = [], faults = [], fates = []\<rparr> 5)
     \<le> unat WithdrawFee + unat MinCellCapacity
   \<and> WithdrawAll (\<lambda>a. Some 6) \<lparr>live = [], sent = [], faults = [], fates = []\<rparr> 5 ''ckt1sender''
     = (Inl NoCellsInWallet, \<lparr>live = [], sent = [], faults = [], fates = []\<rparr>)
   \<and> \<not> is_InsufficientBalance
        (fst (WithdrawAll (\<lambda>a. Some 6) \<lparr>live = [], sent = [], faults = [], fates = []\<rparr> 5 ''ckt1sender''))
   \<and> total_capacity (bare_cells large_wallet_node 5) = 1010000000000
   \<and> fst (WithdrawAll (\<lambda>a. Some 6) large_wallet_node 5 ''ckt1sender'') = Inr 0
   \<and> map (\<lambda>tx. map Capacity (Outputs tx))
        (sent (snd (WithdrawAll (\<lambda>a. Some 6) large_wallet_node 5 ''ckt1sender'')))
       = [[999999900000]]
   \<and> unat (999999900000 :: uint64)
       \<noteq> total_capacity (bare_cells large_wallet_node 5) - unat WithdrawFee"
proof -
  have empty: "total_capacity (bare_cells \<lparr>live = [], sent = [], faults = [], fates = []\<rparr> 5)
     \<le> unat WithdrawFee + unat MinCellCapacity
   \<and> WithdrawAll (\<lambda>a. Some 6) \<lparr>live = [], sent = [], faults = [], fates = []\<rparr> 5 ''ckt1sender''
     = (Inl NoCellsInWallet, \<lparr>live = [], sent = [], faults = [], fates = []\<rparr>)
   \<and> \<not> is_InsufficientBalance
        (fst (WithdrawAll (\<lambda>a. Some 6) \<lparr>live = [], sent = [], faults = [], fates = []\<rparr> 5 ''ckt1sender''))"
    by (simp add: WithdrawAll_def rpc_GetCells_def rpc_call_def bare_cells_def wallet_cells_def
        total_capacity_def)
  have bare: "bare_cells large_wallet_node 5 = live large_wallet_node"
    by (simp add: bare_cells_def wallet_cells_def large_wallet_node_def)
  have total: "total_capacity (bare_cells large_wallet_node 5) = 1010000000000"
    unfolding bare
    by (simp add: large_wallet_node_def total_capacity_def o_def sum_list_triv)
  have run: "fst (WithdrawAll (\<lambda>a. Some 6) large_wallet_node 5 ''ckt1sender'') = Inr 0
   \<and> map (\<lambda>tx. map Capacity (Outputs tx))
        (sent (snd (WithdrawAll (\<lambda>a. Some 6) large_wallet_node 5 ''ckt1sender'')))
       = [[999999900000]]"
    by code_simp
  have differ: "unat (999999900000 :: uint64)
       \<noteq> total_capacity (bare_cells large_wallet_node 5) - unat WithdrawFee"
    unfolding total by (simp add: WithdrawFee_def)
  from empty total run differ show ?thesis by simp
qed

lemma wallet_node_bare:
  "bare_cells (wallet_node c) 5 = [\<lparr>OutPoint = (7, 0), Output = \<lparr>Capacity = c, Lock = 5, Type = None\<rparr>\<rparr>]"
  "length (wallet_cells (wallet_node c) 5) \<le> 100"
  by (simp_all add: wallet_node_def bare_cells_def wallet_cells_def)

theorem withdraw_all_outcomes_witness:
  "rpc_call (wallet_node 6100000000) = (False, wallet_node 6100000000)
   \<and> length (wallet_cells (wallet_node 6100000000) 5) \<le> 100
   \<and> total_capacity (bare_cells (wallet_node 6100000000) 5) = 6100000000
   \<and> WithdrawAll (\<lambda>a. Some 6) (wallet_node 6100000000) 5 ''ckt1sender''
       = (Inl (InsufficientBalance 6100000000), wallet_node 6100000000)
   \<and> sent (wallet_node 6100000000) = []
   \<and> total_capacity (bare_cells (wallet_node 50000000000) 5) = 50000000000
   \<and> fst (WithdrawAll (\<lambda>a. Some 6) (wallet_node 50000000000) 5 ''ckt1sender'') = Inr 0
   \<and> (\<exists>outputCapacity.
         unat outputCapacity = 49999900000
       \<and> sent (snd (WithdrawAll (\<lambda>a. Some 6) (wallet_node 50000000000) 5 ''ckt1sender'')) =
           [\<lparr>Inputs = [(7, 0)],
             Outputs = [\<lparr>Capacity = outputCapacity, Lock = 6, Type = None\<rparr>]\<rparr>])"
proof -
  have up: "\<And>c. rpc_call (wallet_node c) = (False, wallet_node c)"
    by (simp add: wallet_node_def rpc_call_def)
  have dec: "(\<lambda>a::string. Some (6::nat)) ''ckt1sender'' = Some 6"
    by simp
  note all = wallet_node_bare(2)
  have t1: "total_capacity (bare_cells (wallet_node 6100000000) 5) = 6100000000"
    by (simp add: wallet_node_bare total_capacity_def)
  have t2: "total_capacity (bare_cells (wallet_node 50000000000) 5) = 50000000000"
    by (simp add: wallet_node_bare total_capacity_def)
  have fit1: "total_capacity (bare_cells (wallet_node 6100000000) 5) < 2 ^ 64"
    by (simp add: t1)
  have fit2: "total_capacity (bare_cells (wallet_node 50000000000) 5) < 2 ^ 64"
    by (simp add: t2)
  note low = withdraw_all_outcomes
      [where decodeAddressToScript = "\<lambda>a. Some 6" and toAddress = "''ckt1sender''",
       OF dec up all fit1]
  note high = withdraw_all_outcomes
      [where decodeAddressToScript = "\<lambda>a. Some 6" and toAddress = "''ckt1sender''",
       OF dec up all fit2]
  have small: "bare_cells (wallet_node 6100000000) 5 \<noteq> [] \<and>
      total_capacity (bare_cells (wallet_node 6100000000) 5) \<le> unat WithdrawFee + unat MinCellCapacity"
    unfolding t1 by (simp add: wallet_node_bare WithdrawFee_def MinCellCapacity_def)
  from low small have r1: "WithdrawAll (\<lambda>a. Some 6) (wallet_node 6100000000) 5 ''ckt1sender''
       = (Inl (InsufficientBalance 6100000000), wallet_node 6100000000)"
    by (simp add: t1)
  have s1: "sent (wallet_node 6100000000) = []"
    by (simp add: wallet_node_def)
  have r2: "fst (WithdrawAll (\<lambda>a. Some 6) (wallet_node 50000000000) 5 ''ckt1sender'') = Inr 0"
    by (simp add: wallet_node_def WithdrawAll_def rpc_GetCells_def rpc_call_def
        rpc_SendTransaction_def WithdrawFee_def MinCellCapacity_def)
  then have "WithdrawAll (\<lambda>a. Some 6) (wallet_node 50000000000) 5 ''ckt1sender''
      = (Inr 0, snd (WithdrawAll (\<lambda>a. Some 6) (wallet_node 50000000000) 5 ''ckt1sender''))"
    by (metis prod.collapse)
  with high have "\<exists>outputCapacity.
         unat outputCapacity = 50000000000 - unat WithdrawFee
       \<and> sent (snd (WithdrawAll (\<lambda>a. Some 6) (wallet_node 50000000000) 5 ''ckt1sender'')) =
           sent (wallet_node 50000000000) @
           [\<lparr>Inputs = map OutPoint (bare_cells (wallet_node 50000000000) 5),
             Outputs = [\<lparr>Capacity = outputCapacity, Lock = 6, Type = None\<rparr>]\<rparr>]"
    unfolding t2 by blast
  then have r3: "\<exists>outputCapacity.
         unat outputCapacity = 49999900000
       \<and> sent (snd (WithdrawAll (\<lambda>a. Some 6) (wallet_node 50000000000) 5 ''ckt1sender'')) =
           [\<lparr>Inputs = [(7, 0)],
             Outputs = [\<lparr>Capacity = outputCapacity, Lock = 6, Type = None\<rparr>]\<rparr>]"
    by (simp add: wallet_node_bare WithdrawFee_def) (simp add: wallet_node_def)
  from up all t1 r1 s1 t2 r2 r3 show ?thesis by simp
qed

section \<open>Rates and durations\<close>

lemma sdiv60_range:
  fixes x :: int
  shows "min x 0 \<le> x sdiv 60 \<and> x sdiv 60 \<le> max x 0"
proof (cases "0 \<le> x")
  case True
  then have "x sdiv 60 = x div 60"
    by (simp add: signed_divide_int_def sgn_if)
  moreover have "0 \<le> x div 60" and "x div 60 \<le> x"
    using True by simp_all
  ultimately show ?thesis using True by simp
next
  case False
  then have "x sdiv 60 = - ((- x) div 60)"
    by (simp add: signed_divide_int_def sgn_if)
  moreover have "0 \<le> (- x) div 60" and "(- x) div 60 \<le> - x"
    using False by simp_all
  ultimately show ?thesis using False by simp
qed

lemma sint_times_unit:
  fixes h :: int64
  assumes "- (2 ^ 63) \<le> sint h * 100000000" and "sint h * 100000000 < 2 ^ 63"
  shows "sint (h * 100000000) = sint h * 100000000"
proof -
  have "sint (h * 100000000) = signed_take_bit 63 (sint h * sint (100000000 :: int64))"
    by (simp add: sint_word_ariths)
  also have "sint (100000000 :: int64) = 100000000" by simp
  finally show ?thesis
    using assms by (simp add: signed_take_bit_int_eq_self)
qed

lemma sint_ratePerMinShannons:
  fixes h :: int64
  assumes "- (2 ^ 63) \<le> sint h * 100000000" and "sint h * 100000000 < 2 ^ 63"
  shows "sint (ratePerMinShannons h) = (sint h * 100000000) sdiv 60"
proof -
  let ?x = "sint h * 100000000"
  have "min ?x 0 \<le> ?x sdiv 60 \<and> ?x sdiv 60 \<le> max ?x 0" by (rule sdiv60_range)
  then have "- (2 ^ 63) \<le> ?x sdiv 60" and "?x sdiv 60 < 2 ^ 63"
    using assms by (simp_all add: min_def max_def split: if_splits)
  then have "sint (word_of_int (?x sdiv 60) :: int64) = ?x sdiv 60"
    by (simp add: sint_sbintrunc' signed_take_bit_int_eq_self)
  then show ?thesis
    by (simp add: ratePerMinShannons_def sint_times_unit [OF assms])
qed

text \<open>
  The counterexample to claim C4 as stated: at 92233720369 CKB per hour the product with
  100000000 exceeds \<open>2^63 - 1\<close> and wraps, and the rate the server stores is negative,
  not \<open>\<lfloor>92233720369 * 100000000 / 60\<rfloor> = 153722867281666666\<close>.
\<close>

theorem rate_overflow_counterexample:
  "ratePerMin (NewServer \<lparr>RatePerHour = 92233720369, ChannelSetupCKB = 1000\<rparr>) = - 153722867280159193
   \<and> ((92233720369::int) * 100000000) div 60 = 153722867281666666
   \<and> ((92233720369::int) * 100000000) sdiv 60 = 153722867281666666"
  by (simp add: NewServer_def ratePerMinShannons_def signed_divide_int_def)

text \<open>
  Claim C4, amended. For every hourly price whose product with 100000000 lies in the
  range of \<open>int64\<close>, the rate per tick that \<open>NewServer\<close> and \<open>updateRatePerMin\<close> store
  is \<open>hourlyPrice * 100000000 / 60\<close> with the quotient truncated toward zero, which is
  the floor when the price is not negative. At 500 CKB per hour the rate is 833333333
  base units per minute, and the minutes computed from 500, 250, 1000 and 85 CKB are
  60, 30, 120 and 10.
\<close>

theorem rate_per_minute_and_durations:
  assumes "- (2 ^ 63) \<le> sint ratePerHour * 100000000"
    and "sint ratePerHour * 100000000 < 2 ^ 63"
  shows "ratePerMin (NewServer \<lparr>RatePerHour = ratePerHour, ChannelSetupCKB = setup\<rparr>)
           = (sint ratePerHour * 100000000) sdiv 60
    \<and> ratePerMin (updateRatePerMin s ratePerHour) = (sint ratePerHour * 100000000) sdiv 60
    \<and> (0 \<le> sint ratePerHour \<longrightarrow>
          ratePerMin (updateRatePerMin s ratePerHour) = (sint ratePerHour * 100000000) div 60)
    \<and> ratePerMinShannons 500 = 833333333
    \<and> sessionMinutes 500 500 = Some 60
    \<and> sessionMinutes 250 500 = Some 30
    \<and> sessionMinutes 1000 500 = Some 120
    \<and> sessionMinutes 85 500 = Some 10
    \<and> big_Div (85 * 100000000) 833333333 = Some 10"
proof -
  note r = sint_ratePerMinShannons [OF assms]
  have floor: "0 \<le> sint ratePerHour \<Longrightarrow>
      (sint ratePerHour * 100000000) sdiv 60 = (sint ratePerHour * 100000000) div 60"
    by (simp add: signed_divide_int_def sgn_if)
  have r500: "ratePerMinShannons 500 = 833333333"
    by (simp add: ratePerMinShannons_def signed_divide_int_def)
  have "sessionMinutes 500 500 = Some 60"
    by (simp add: sessionMinutes_def r500 div_int64_def signed_divide_int_def)
  moreover have "sessionMinutes 250 500 = Some 30"
    by (simp add: sessionMinutes_def r500 div_int64_def signed_divide_int_def)
  moreover have "sessionMinutes 1000 500 = Some 120"
    by (simp add: sessionMinutes_def r500 div_int64_def signed_divide_int_def)
  moreover have "sessionMinutes 85 500 = Some 10"
    by (simp add: sessionMinutes_def r500 div_int64_def signed_divide_int_def)
  moreover have "big_Div (85 * 100000000) 833333333 = Some 10"
    by (simp add: big_Div_def)
  ultimately show ?thesis
    using r floor r500 by (simp add: NewServer_def updateRatePerMin_def)
qed

theorem rate_per_minute_and_durations_witness:
  "- (2 ^ 63) \<le> sint (500 :: int64) * 100000000
   \<and> sint (500 :: int64) * 100000000 < 2 ^ 63
   \<and> ratePerMin (NewServer \<lparr>RatePerHour = 500, ChannelSetupCKB = 1000\<rparr>) = 833333333
   \<and> ratePerMin (updateRatePerMin (NewServer \<lparr>RatePerHour = 1, ChannelSetupCKB = 1000\<rparr>) 500)
        = 833333333"
  using rate_per_minute_and_durations
    [of 500 1000 "NewServer \<lparr>RatePerHour = 1, ChannelSetupCKB = 1000\<rparr>"]
  by (simp add: signed_divide_int_def)

lemma usable_nonneg:
  "0 \<le> sint (if sint (b - r) < 0 then 0 else b - r :: int64)"
  by simp

lemma usable_clamped:
  fixes b r :: int64
  assumes "0 \<le> sint b" and "sint b < sint r"
  shows "sint (b - r) < 0"
proof -
  have lo: "- (2 ^ 63) \<le> sint b - sint r"
    using assms(1) sint_lt [of r] by simp
  have hi: "sint b - sint r < 2 ^ 63"
    using assms(2) by (simp add: order.strict_trans)
  have "sint (b - r) = signed_take_bit 63 (sint b - sint r)"
    by (simp add: sint_word_ariths)
  also have "\<dots> = sint b - sint r"
    using lo hi by (simp add: signed_take_bit_int_eq_self)
  finally show ?thesis using assms(2) by simp
qed

text \<open>
  Claim C10. A session that \<open>createSessionFromWallet\<close> creates never has a negative
  balance. When the funded balance (which is not negative) is strictly less than the
  reserved channel-setup amount, the session has balance 0 and duration 0: its expiry is
  its creation instant. Such a session is created whenever the rate per minute is not
  zero (the division would panic) and the store accepts the row.
\<close>

theorem create_session_clamps_usable_balance:
  "(\<forall>session. createSessionFromWallet s env wallet balanceCKB = Inr (Some session) \<longrightarrow>
       0 \<le> sint (BalanceCKB session)
     \<and> (0 \<le> sint balanceCKB \<and> sint balanceCKB < sint (channelSetupCKB s) \<longrightarrow>
          BalanceCKB session = 0 \<and> session_ExpiresAt session = session_CreatedAt session))
   \<and> (0 \<le> sint balanceCKB \<and> sint balanceCKB < sint (channelSetupCKB s)
        \<and> ratePerMinShannons (currentRatePerHour (GetRatePerHour env)) \<noteq> 0
        \<and> CreateSessionOk env \<longrightarrow>
        (\<exists>session. createSessionFromWallet s env wallet balanceCKB = Inr (Some session)))"
proof (intro conjI allI impI)
  fix session
  assume c: "createSessionFromWallet s env wallet balanceCKB = Inr (Some session)"
  define usable where "usable =
    (if sint (balanceCKB - channelSetupCKB s) < 0 then 0 else balanceCKB - channelSetupCKB s)"
  obtain minutes where m: "sessionMinutes usable (currentRatePerHour (GetRatePerHour env)) = Some minutes"
    and b: "BalanceCKB session = usable"
    and ca: "session_CreatedAt session = Now env"
    and ea: "session_ExpiresAt session = Add (Now env) (minutes * Minute)"
    using c unfolding createSessionFromWallet_def Let_def usable_def
    by (auto split: option.splits if_splits)
  show "0 \<le> sint (BalanceCKB session)"
    unfolding b usable_def by (rule usable_nonneg)
  {
    assume "0 \<le> sint balanceCKB \<and> sint balanceCKB < sint (channelSetupCKB s)"
    then have "sint (balanceCKB - channelSetupCKB s) < 0"
      using usable_clamped by blast
    then have u0: "usable = 0" by (simp add: usable_def)
    then show "BalanceCKB session = 0" using b by simp
    from m u0 have "minutes = 0"
      by (auto simp: sessionMinutes_def div_int64_def split: if_splits)
    then show "session_ExpiresAt session = session_CreatedAt session"
      by (simp add: ea ca Add_def)
  }
next
  assume a: "0 \<le> sint balanceCKB \<and> sint balanceCKB < sint (channelSetupCKB s)
        \<and> ratePerMinShannons (currentRatePerHour (GetRatePerHour env)) \<noteq> 0
        \<and> CreateSessionOk env"
  then show "\<exists>session. createSessionFromWallet s env wallet balanceCKB = Inr (Some session)"
    by (simp add: createSessionFromWallet_def Let_def sessionMinutes_def div_int64_def)
qed

lemma host_fields:
  "ratePerMin host = 833333333" "channelSetupCKB host = 1000" "sessions host = Map.empty"
  by (simp_all add: host_def NewServer_def ratePerMinShannons_def signed_divide_int_def)

theorem create_session_clamps_usable_balance_witness:
  "0 \<le> sint (5 :: int64) \<and> sint (5 :: int64) < sint (channelSetupCKB host)
   \<and> createSessionFromWallet host
        \<lparr>randomID = ''a1b2c3d4e5f60718'', GetRatePerHour = Some 500, Now = 1700000000000000000,
         hostAddress = ''ckt1host'', CreateSessionOk = True\<rparr>
        \<lparr>wallet_ID = ''w1'', Address = ''ckt1guest'', PrivateKeyHex = ''00'',
         MACAddress = ''aa:bb'', IPAddress = ''10.0.0.2''\<rparr> 5
      = Inr (Some \<lparr>session_ID = ''a1b2c3d4e5f60718'', WalletID = ''w1'',
                   session_GuestAddress = ''ckt1guest'', HostAddress = ''ckt1host'',
                   FundingCKB = 5, BalanceCKB = 0, SpentCKB = 0,
                   session_CreatedAt = 1700000000000000000,
                   session_ExpiresAt = 1700000000000000000,
                   Status = ''active'', session_MACAddress = ''aa:bb'',
                   session_IPAddress = ''10.0.0.2''\<rparr>)"
proof -
  let ?env = "\<lparr>randomID = ''a1b2c3d4e5f60718'', GetRatePerHour = Some 500, Now = 1700000000000000000,
         hostAddress = ''ckt1host'', CreateSessionOk = True\<rparr>"
  let ?w = "\<lparr>wallet_ID = ''w1'', Address = ''ckt1guest'', PrivateKeyHex = ''00'',
         MACAddress = ''aa:bb'', IPAddress = ''10.0.0.2''\<rparr>"
  have range: "0 \<le> sint (5 :: int64) \<and> sint (5 :: int64) < sint (channelSetupCKB host)"
    by (simp add: host_fields)
  have rate: "ratePerMinShannons (currentRatePerHour (GetRatePerHour ?env)) \<noteq> 0"
    by (simp add: currentRatePerHour_def ratePerMinShannons_def signed_divide_int_def)
  note t = create_session_clamps_usable_balance [of host ?env ?w 5]
  from t range rate obtain session where
    c: "createSessionFromWallet host ?env ?w 5 = Inr (Some session)"
    by auto
  with t range have z: "BalanceCKB session = 0"
    and e: "session_ExpiresAt session = session_CreatedAt session"
    by blast+
  from c have "session_ID session = ''a1b2c3d4e5f60718'' \<and> WalletID session = ''w1''
      \<and> session_GuestAddress session = ''ckt1guest'' \<and> HostAddress session = ''ckt1host''
      \<and> FundingCKB session = 5 \<and> SpentCKB session = 0
      \<and> session_CreatedAt session = 1700000000000000000
      \<and> Status session = ''active'' \<and> session_MACAddress session = ''aa:bb''
      \<and> session_IPAddress session = ''10.0.0.2''"
    by (auto simp: createSessionFromWallet_def Let_def split: option.splits)
  with z e have "session = \<lparr>session_ID = ''a1b2c3d4e5f60718'', WalletID = ''w1'',
                   session_GuestAddress = ''ckt1guest'', HostAddress = ''ckt1host'',
                   FundingCKB = 5, BalanceCKB = 0, SpentCKB = 0,
                   session_CreatedAt = 1700000000000000000,
                   session_ExpiresAt = 1700000000000000000,
                   Status = ''active'', session_MACAddress = ''aa:bb'',
                   session_IPAddress = ''10.0.0.2''\<rparr>"
    by (cases session) simp
  with c range show ?thesis by simp
qed


section \<open>The micropayment tick\<close>

lemma process_session_keys:
  assumes "e \<in> set (snd (process_session now ok rate j sess))"
  shows "effect_key e = Some j"
  using assms by (auto simp: process_session_def Let_def split: if_splits)

lemma range_sessions_entry:
  assumes "distinct keys"
  shows "fst (range_sessions clock pay rate keys (m, es)) k =
    (if k \<in> set keys
     then (case m k of None \<Rightarrow> None
           | Some sess \<Rightarrow> fst (process_session (clock k) (pay k) rate k sess))
     else m k)"
  using assms
proof (induction keys arbitrary: m es)
  case Nil
  then show ?case by simp
next
  case (Cons j keys)
  then have d: "distinct keys" and nj: "j \<notin> set keys" by simp_all
  show ?case
  proof (cases "m j")
    case None
    then show ?thesis using nj by (auto simp: Cons.IH [OF d])
  next
    case (Some sess)
    obtain r es' where p: "process_session (clock j) (pay j) rate j sess = (r, es')"
      by (cases "process_session (clock j) (pay j) rate j sess")
    have step: "range_sessions clock pay rate (j # keys) (m, es) =
        range_sessions clock pay rate keys (m(j := r), es @ es')"
      using Some p by simp
    show ?thesis
      unfolding step Cons.IH [OF d] using nj Some p by simp
  qed
qed

lemma range_sessions_effects:
  assumes "distinct keys"
  shows "filter (\<lambda>e. effect_key e = Some k) (snd (range_sessions clock pay rate keys (m, es))) =
    filter (\<lambda>e. effect_key e = Some k) es @
    (if k \<in> set keys
     then (case m k of None \<Rightarrow> []
           | Some sess \<Rightarrow> snd (process_session (clock k) (pay k) rate k sess))
     else [])"
  using assms
proof (induction keys arbitrary: m es)
  case Nil
  then show ?case by simp
next
  case (Cons j keys)
  then have d: "distinct keys" and nj: "j \<notin> set keys" by simp_all
  show ?case
  proof (cases "m j")
    case None
    then show ?thesis using nj by (auto simp: Cons.IH [OF d])
  next
    case (Some sess)
    obtain r es' where p: "process_session (clock j) (pay j) rate j sess = (r, es')"
      by (cases "process_session (clock j) (pay j) rate j sess")
    have own: "filter (\<lambda>e. effect_key e = Some j) es' = es'"
      using process_session_keys [of _ "clock j" "pay j" rate j sess] p
      by (simp add: filter_id_conv)
    have other: "k \<noteq> j \<Longrightarrow> filter (\<lambda>e. effect_key e = Some k) es' = []"
      using process_session_keys [of _ "clock j" "pay j" rate j sess] p
      by (auto simp: filter_empty_conv)
    have step: "range_sessions clock pay rate (j # keys) (m, es) =
        range_sessions clock pay rate keys (m(j := r), es @ es')"
      using Some p by simp
    show ?thesis
    proof (cases "k = j")
      case True
      then show ?thesis
        unfolding step Cons.IH [OF d] using nj Some p own by simp
    next
      case False
      then show ?thesis
        unfolding step Cons.IH [OF d] using Some p other by simp
    qed
  qed
qed

lemma tick_entry:
  assumes "distinct keys" and "k \<in> set keys" and "sessions s k = Some sess"
    and "processMicropayments s clock pay keys = (s', effects)"
  shows "sessions s' k = fst (process_session (clock k) (pay k) (ratePerMin s) k sess)"
    and "filter (\<lambda>e. effect_key e = Some k) effects =
         snd (process_session (clock k) (pay k) (ratePerMin s) k sess)"
    and "ratePerMin s' = ratePerMin s"
proof -
  obtain m es where r: "range_sessions clock pay (ratePerMin s) keys (sessions s, []) = (m, es)"
    by (cases "range_sessions clock pay (ratePerMin s) keys (sessions s, [])")
  with assms(4) have s': "s' = s\<lparr>sessions := m\<rparr>" and e: "effects = es"
    by (simp_all add: processMicropayments_def)
  show "sessions s' k = fst (process_session (clock k) (pay k) (ratePerMin s) k sess)"
    using range_sessions_entry [OF assms(1), of clock pay "ratePerMin s" "sessions s" "[]" k] r assms(2,3)
    by (simp add: s')
  show "filter (\<lambda>e. effect_key e = Some k) effects =
         snd (process_session (clock k) (pay k) (ratePerMin s) k sess)"
    using range_sessions_effects [OF assms(1), of k clock pay "ratePerMin s" "sessions s" "[]"] r assms(2,3)
    by (simp add: e)
  show "ratePerMin s' = ratePerMin s" by (simp add: s')
qed

lemma settlement_has_key: "is_settlement k e \<Longrightarrow> effect_key e = Some k"
  by (cases e) auto

lemma payment_has_key: "is_payment k e \<Longrightarrow> effect_key e = Some k"
  by (cases e) auto

lemma store_write_has_key: "is_store_write k e \<Longrightarrow> effect_key e = Some k"
  by (cases e) auto

lemma filter_through_key:
  assumes "\<And>e. P e \<Longrightarrow> effect_key e = Some k"
  shows "filter P effects = filter P (filter (\<lambda>e. effect_key e = Some k) effects)"
  using assms by (induction effects) auto

text \<open>
  Claim C3. On a tick of the scheduler, a session of the registry that is not past its
  expiry and whose remaining funds \<open>FundingAmount - TotalPaid\<close> are strictly less than the
  rate per tick is removed from the registry, exactly one settlement task is started
  for it, and no payment is sent for it.
\<close>

theorem insufficient_session_settled_once:
  assumes "distinct keys" and "sessionID \<in> set keys"
    and "sessions s sessionID = Some session"
    and "\<not> ExpiresAt session < clock sessionID"
    and "FundingAmount session - TotalPaid session < ratePerMin s"
    and "processMicropayments s clock pay keys = (s', effects)"
  shows "sessions s' sessionID = None
    \<and> filter (is_settlement sessionID) effects = [SettleExpiredSession sessionID session]
    \<and> filter (is_payment sessionID) effects = []"
proof -
  have p: "process_session (clock sessionID) (pay sessionID) (ratePerMin s) sessionID session
      = (None, [SettleExpiredSession sessionID session, DeleteSession sessionID])"
    using assms(4,5) by (simp add: process_session_def)
  note t = tick_entry [OF assms(1,2,3,6)]
  have own: "filter (\<lambda>e. effect_key e = Some sessionID) effects
      = [SettleExpiredSession sessionID session, DeleteSession sessionID]"
    using t(2) p by simp
  have "filter (is_settlement sessionID) effects = [SettleExpiredSession sessionID session]"
    by (subst filter_through_key [of "is_settlement sessionID" sessionID])
       (simp_all add: settlement_has_key own)
  moreover have "filter (is_payment sessionID) effects = []"
    by (subst filter_through_key [of "is_payment sessionID" sessionID])
       (simp_all add: payment_has_key own)
  moreover have "sessions s' sessionID = None"
    using t(1) p by simp
  ultimately show ?thesis by simp
qed

lemma serving_fields:
  "ratePerMin (serving paid) = 833333333"
  "sessions (serving paid) ''a1b2c3d4e5f60718'' = Some (guest paid)"
  by (simp_all add: serving_def host_fields)

theorem insufficient_session_settled_once_witness:
  "sessions (serving 49999999980) ''a1b2c3d4e5f60718'' = Some (guest 49999999980)
   \<and> \<not> ExpiresAt (guest 49999999980) < 60000000000
   \<and> FundingAmount (guest 49999999980) - TotalPaid (guest 49999999980) < ratePerMin (serving 49999999980)
   \<and> sessions (fst (processMicropayments (serving 49999999980) (\<lambda>k. 60000000000) (\<lambda>k. True)
         [''a1b2c3d4e5f60718''])) ''a1b2c3d4e5f60718'' = None
   \<and> filter (is_settlement ''a1b2c3d4e5f60718'')
        (snd (processMicropayments (serving 49999999980) (\<lambda>k. 60000000000) (\<lambda>k. True)
           [''a1b2c3d4e5f60718'']))
       = [SettleExpiredSession ''a1b2c3d4e5f60718'' (guest 49999999980)]
   \<and> filter (is_payment ''a1b2c3d4e5f60718'')
        (snd (processMicropayments (serving 49999999980) (\<lambda>k. 60000000000) (\<lambda>k. True)
           [''a1b2c3d4e5f60718''])) = []"
proof -
  let ?k = "''a1b2c3d4e5f60718''"
  let ?r = "processMicropayments (serving 49999999980) (\<lambda>k. 60000000000) (\<lambda>k. True) [?k]"
  have d: "distinct [?k]" and i: "?k \<in> set [?k]" by simp_all
  have g: "sessions (serving 49999999980) ?k = Some (guest 49999999980)"
    by (rule serving_fields)
  have e: "\<not> ExpiresAt (guest 49999999980) < (\<lambda>k::string. 60000000000) ?k"
    by (simp add: guest_def)
  have f: "FundingAmount (guest 49999999980) - TotalPaid (guest 49999999980)
      < ratePerMin (serving 49999999980)"
    by (simp add: guest_def serving_fields)
  have r: "?r = (fst ?r, snd ?r)" by simp
  note t = insufficient_session_settled_once [OF d i g e f r]
  from g e f t show ?thesis by simp
qed

text \<open>
  Claim C8. On a tick of the scheduler, if the payment of a session fails, the session
  stays in the registry with all its fields unchanged, nothing is written to the store
  for it and no settlement is started; the payment was attempted once. On the next tick,
  whatever its clock and the order of the keys, the same payment is attempted again as
  long as the session has not expired: a failure delays nothing.
\<close>

theorem failed_payment_leaves_session_untouched:
  assumes "distinct keys" and "sessionID \<in> set keys"
    and "sessions s sessionID = Some session"
    and "\<not> ExpiresAt session < clock sessionID"
    and "\<not> FundingAmount session - TotalPaid session < ratePerMin s"
    and "\<not> pay sessionID"
    and "processMicropayments s clock pay keys = (s', effects)"
  shows "sessions s' sessionID = Some session
    \<and> filter (is_store_write sessionID) effects = []
    \<and> filter (is_settlement sessionID) effects = []
    \<and> filter (is_payment sessionID) effects = [SendPayment sessionID (ratePerMin s)]
    \<and> (\<forall>keys' clock' pay' s'' effects'.
          distinct keys' \<and> sessionID \<in> set keys'
          \<and> \<not> ExpiresAt session < clock' sessionID
          \<and> processMicropayments s' clock' pay' keys' = (s'', effects') \<longrightarrow>
          filter (is_payment sessionID) effects' = [SendPayment sessionID (ratePerMin s)])"
proof -
  have p: "\<And>now. \<not> ExpiresAt session < now \<Longrightarrow>
      process_session now False (ratePerMin s) sessionID session
        = (Some session, [SendPayment sessionID (ratePerMin s)])"
    using assms(5) by (simp add: process_session_def)
  note t = tick_entry [OF assms(1,2,3,7)]
  have own: "filter (\<lambda>e. effect_key e = Some sessionID) effects = [SendPayment sessionID (ratePerMin s)]"
    using t(2) p [OF assms(4)] assms(6) by simp
  have kept: "sessions s' sessionID = Some session"
    using t(1) p [OF assms(4)] assms(6) by simp
  have "filter (is_store_write sessionID) effects = []"
    by (subst filter_through_key [of "is_store_write sessionID" sessionID])
       (simp_all add: store_write_has_key own)
  moreover have "filter (is_settlement sessionID) effects = []"
    by (subst filter_through_key [of "is_settlement sessionID" sessionID])
       (simp_all add: settlement_has_key own)
  moreover have "filter (is_payment sessionID) effects = [SendPayment sessionID (ratePerMin s)]"
    by (subst filter_through_key [of "is_payment sessionID" sessionID])
       (simp_all add: payment_has_key own)
  moreover have "\<forall>keys' clock' pay' s'' effects'.
          distinct keys' \<and> sessionID \<in> set keys'
          \<and> \<not> ExpiresAt session < clock' sessionID
          \<and> processMicropayments s' clock' pay' keys' = (s'', effects') \<longrightarrow>
          filter (is_payment sessionID) effects' = [SendPayment sessionID (ratePerMin s)]"
  proof (intro allI impI)
    fix keys' clock' pay' s'' effects'
    assume a: "distinct keys' \<and> sessionID \<in> set keys'
          \<and> \<not> ExpiresAt session < clock' sessionID
          \<and> processMicropayments s' clock' pay' keys' = (s'', effects')"
    then have d: "distinct keys'" and i: "sessionID \<in> set keys'"
      and ne: "\<not> ExpiresAt session < clock' sessionID"
      and r: "processMicropayments s' clock' pay' keys' = (s'', effects')"
      by simp_all
    note t' = tick_entry [OF d i kept r]
    have "filter (is_payment sessionID) (snd (process_session (clock' sessionID) (pay' sessionID)
        (ratePerMin s) sessionID session)) = [SendPayment sessionID (ratePerMin s)]"
      using ne assms(5) by (simp add: process_session_def Let_def)
    then show "filter (is_payment sessionID) effects' = [SendPayment sessionID (ratePerMin s)]"
      by (subst filter_through_key [of "is_payment sessionID" sessionID])
         (simp_all add: payment_has_key t'(2) t(3))
  qed
  ultimately show ?thesis using kept by simp
qed

theorem failed_payment_leaves_session_untouched_witness:
  "sessions (serving 0) ''a1b2c3d4e5f60718'' = Some (guest 0)
   \<and> \<not> ExpiresAt (guest 0) < 60000000000
   \<and> \<not> FundingAmount (guest 0) - TotalPaid (guest 0) < ratePerMin (serving 0)
   \<and> sessions (fst (processMicropayments (serving 0) (\<lambda>k. 60000000000) (\<lambda>k. False)
         [''a1b2c3d4e5f60718''])) ''a1b2c3d4e5f60718'' = Some (guest 0)
   \<and> snd (processMicropayments (serving 0) (\<lambda>k. 60000000000) (\<lambda>k. False) [''a1b2c3d4e5f60718''])
       = [SendPayment ''a1b2c3d4e5f60718'' 833333333]
   \<and> filter (is_store_write ''a1b2c3d4e5f60718'')
        (snd (processMicropayments (serving 0) (\<lambda>k. 60000000000) (\<lambda>k. False)
           [''a1b2c3d4e5f60718''])) = []
   \<and> filter (is_payment ''a1b2c3d4e5f60718'')
        (snd (processMicropayments
           (fst (processMicropayments (serving 0) (\<lambda>k. 60000000000) (\<lambda>k. False)
              [''a1b2c3d4e5f60718'']))
           (\<lambda>k. 120000000000) (\<lambda>k. True) [''a1b2c3d4e5f60718'']))
       = [SendPayment ''a1b2c3d4e5f60718'' 833333333]"
proof -
  let ?k = "''a1b2c3d4e5f60718''"
  let ?r = "processMicropayments (serving 0) (\<lambda>k. 60000000000) (\<lambda>k. False) [?k]"
  let ?r2 = "processMicropayments (fst ?r) (\<lambda>k. 120000000000) (\<lambda>k. True) [?k]"
  have d: "distinct [?k]" and i: "?k \<in> set [?k]" by simp_all
  have g: "sessions (serving 0) ?k = Some (guest 0)"
    by (rule serving_fields)
  have e: "\<not> ExpiresAt (guest 0) < (\<lambda>k::string. 60000000000) ?k"
    by (simp add: guest_def)
  have f: "\<not> FundingAmount (guest 0) - TotalPaid (guest 0) < ratePerMin (serving 0)"
    by (simp add: guest_def serving_fields)
  have p: "\<not> (\<lambda>k::string. False) ?k" by simp
  have r: "?r = (fst ?r, snd ?r)" by simp
  note t = failed_payment_leaves_session_untouched [OF d i g e f p r]
  have whole: "snd ?r = [SendPayment ?k 833333333]"
    by (simp add: processMicropayments_def serving_def host_fields process_session_def guest_def)
  have e2: "\<not> ExpiresAt (guest 0) < (\<lambda>k::string. 120000000000) ?k"
    by (simp add: guest_def)
  have r2: "?r2 = (fst ?r2, snd ?r2)" by simp
  have again: "filter (is_payment ?k) (snd ?r2) = [SendPayment ?k (ratePerMin (serving 0))]"
    using t [THEN conjunct2, THEN conjunct2, THEN conjunct2, THEN conjunct2, rule_format,
        of "[?k]" "\<lambda>k. 120000000000" "\<lambda>k. True" "fst ?r2" "snd ?r2"] d i e2
    by simp
  from g e f t whole again show ?thesis by (simp add: serving_fields)
qed


lemma handleEndSession_absent:
  "sessions s sessionID = None \<Longrightarrow> handleEndSession s macOf sessionID = (StatusNotFound, s, [])"
  by (simp add: handleEndSession_def)

lemma handleEndSession_present:
  assumes "sessions s sessionID = Some session"
  shows "\<exists>rest. handleEndSession s macOf sessionID =
      (StatusOK, s\<lparr>sessions := (sessions s)(sessionID := None)\<rparr>, DeleteSession sessionID # rest)
    \<and> filter (is_settlement sessionID) rest = [SettleSessionInBackground sessionID session]"
  using assms by (simp add: handleEndSession_def split: option.splits)

lemma tick_settlements:
  assumes "distinct keys" and "processMicropayments s clock pay keys = (s', effects)"
  shows "length (filter (is_settlement k) effects) \<le> 1
    \<and> (filter (is_settlement k) effects \<noteq> [] \<longrightarrow> sessions s' k = None)"
proof -
  obtain m es where r: "range_sessions clock pay (ratePerMin s) keys (sessions s, []) = (m, es)"
    by (cases "range_sessions clock pay (ratePerMin s) keys (sessions s, [])")
  with assms(2) have s': "s' = s\<lparr>sessions := m\<rparr>" and e: "effects = es"
    by (simp_all add: processMicropayments_def)
  have f: "filter (is_settlement k) es =
      filter (is_settlement k) (filter (\<lambda>e. effect_key e = Some k) es)"
    by (rule filter_through_key) (rule settlement_has_key)
  have kf: "filter (\<lambda>e. effect_key e = Some k) es =
      (if k \<in> set keys
       then (case sessions s k of None \<Rightarrow> []
             | Some sess \<Rightarrow> snd (process_session (clock k) (pay k) (ratePerMin s) k sess))
       else [])"
    using range_sessions_effects [OF assms(1), of k clock pay "ratePerMin s" "sessions s" "[]"] r
    by simp
  have en: "m k =
      (if k \<in> set keys
       then (case sessions s k of None \<Rightarrow> None
             | Some sess \<Rightarrow> fst (process_session (clock k) (pay k) (ratePerMin s) k sess))
       else sessions s k)"
    using range_sessions_entry [OF assms(1), of clock pay "ratePerMin s" "sessions s" "[]" k] r
    by simp
  have m: "sessions s' k = m k" by (simp add: s')
  show ?thesis
  proof (cases "k \<in> set keys \<and> sessions s k \<noteq> None")
    case False
    then have "filter (\<lambda>e. effect_key e = Some k) es = []"
      using kf by (auto split: option.splits)
    then have "filter (is_settlement k) es = []"
      using f by simp
    then show ?thesis by (simp add: e)
  next
    case True
    then obtain sess where i: "k \<in> set keys" and sk: "sessions s k = Some sess"
      by auto
    have kf': "filter (\<lambda>e. effect_key e = Some k) es =
        snd (process_session (clock k) (pay k) (ratePerMin s) k sess)"
      using kf i sk by simp
    have en': "m k = fst (process_session (clock k) (pay k) (ratePerMin s) k sess)"
      using en i sk by simp
    have "length (filter (is_settlement k) (snd (process_session (clock k) (pay k) (ratePerMin s) k sess))) \<le> 1
      \<and> (filter (is_settlement k) (snd (process_session (clock k) (pay k) (ratePerMin s) k sess)) \<noteq> []
           \<longrightarrow> fst (process_session (clock k) (pay k) (ratePerMin s) k sess) = None)"
      by (simp add: process_session_def Let_def)
    then show ?thesis
      unfolding e m en' f kf' .
  qed
qed

lemma tick_settles_due_session:
  assumes "distinct keys" and "k \<in> set keys" and "sessions s k = Some session"
    and "ExpiresAt session < clock k \<or> FundingAmount session - TotalPaid session < ratePerMin s"
    and "processMicropayments s clock pay keys = (s', effects)"
  shows "sessions s' k = None
    \<and> filter (\<lambda>e. effect_key e = Some k) effects
        = [SettleExpiredSession k session, DeleteSession k]
    \<and> filter (is_settlement k) effects = [SettleExpiredSession k session]"
proof -
  have p: "process_session (clock k) (pay k) (ratePerMin s) k session
      = (None, [SettleExpiredSession k session, DeleteSession k])"
    using assms(4) by (auto simp: process_session_def)
  note t = tick_entry [OF assms(1,2,3,5)]
  have own: "filter (\<lambda>e. effect_key e = Some k) effects
      = [SettleExpiredSession k session, DeleteSession k]"
    using t(2) p by simp
  have "filter (is_settlement k) effects = [SettleExpiredSession k session]"
    by (subst filter_through_key [of "is_settlement k" k])
       (simp_all add: settlement_has_key own)
  moreover have "sessions s' k = None"
    using t(1) p by simp
  ultimately show ?thesis using own by simp
qed

text \<open>
  Claim C2, amended. The claim as stated fails for the scheduler: for a session past its
  expiry or short of funds, \<open>processMicropayments\<close> first starts the settlement task and
  then deletes the session from the registry (see the counterexample below). What
  holds, the lookup and the \<open>delete\<close> of \<open>handleEndSession\<close> being one critical section of
  the registry lock and a tick of the scheduler another:
  \<^item> An end request for a session id that is not in the registry returns not found and
    does nothing else: it starts no settlement.
  \<^item> An end request for a session in the registry deletes the session from the registry
    before anything else it does, and starts exactly one settlement; a second end request
    for the same id then returns not found and starts none.
  \<^item> A tick of the scheduler, for a session past its expiry or short of funds, starts
    exactly one settlement and then deletes the session from the registry, and does
    nothing else for this session; after the tick an end request for it returns not
    found and starts no settlement.
  \<^item> No tick starts more than one settlement for a session, and none for a session
    that it leaves in the registry.
\<close>

theorem settlement_exactly_once:
  "(sessions s sessionID = None \<longrightarrow>
      handleEndSession s macOf sessionID = (StatusNotFound, s, []))
   \<and> (\<forall>session. sessions s sessionID = Some session \<longrightarrow>
        (\<exists>s1 rest.
            handleEndSession s macOf sessionID = (StatusOK, s1, DeleteSession sessionID # rest)
          \<and> sessions s1 = (sessions s)(sessionID := None)
          \<and> filter (is_settlement sessionID) rest = [SettleSessionInBackground sessionID session]
          \<and> handleEndSession s1 macOf sessionID = (StatusNotFound, s1, [])))
   \<and> (\<forall>keys clock pay s1 effects session.
        distinct keys \<and> sessionID \<in> set keys \<and> sessions s sessionID = Some session
        \<and> (ExpiresAt session < clock sessionID
             \<or> FundingAmount session - TotalPaid session < ratePerMin s)
        \<and> processMicropayments s clock pay keys = (s1, effects) \<longrightarrow>
          sessions s1 sessionID = None
        \<and> filter (\<lambda>e. effect_key e = Some sessionID) effects
            = [SettleExpiredSession sessionID session, DeleteSession sessionID]
        \<and> filter (is_settlement sessionID) effects = [SettleExpiredSession sessionID session]
        \<and> handleEndSession s1 macOf sessionID = (StatusNotFound, s1, []))
   \<and> (\<forall>keys clock pay s1 effects.
        distinct keys \<and> processMicropayments s clock pay keys = (s1, effects) \<longrightarrow>
          length (filter (is_settlement sessionID) effects) \<le> 1
        \<and> (filter (is_settlement sessionID) effects \<noteq> [] \<longrightarrow>
              sessions s1 sessionID = None))"
proof (intro conjI allI impI)
  assume "sessions s sessionID = None"
  then show "handleEndSession s macOf sessionID = (StatusNotFound, s, [])"
    by (rule handleEndSession_absent)
next
  fix session
  assume a: "sessions s sessionID = Some session"
  let ?s1 = "s\<lparr>sessions := (sessions s)(sessionID := None)\<rparr>"
  from handleEndSession_present [OF a, of macOf] obtain rest where
    e: "handleEndSession s macOf sessionID = (StatusOK, ?s1, DeleteSession sessionID # rest)"
    and f: "filter (is_settlement sessionID) rest = [SettleSessionInBackground sessionID session]"
    by blast
  have "handleEndSession ?s1 macOf sessionID = (StatusNotFound, ?s1, [])"
    by (rule handleEndSession_absent) simp
  with e f show "\<exists>s1 rest.
            handleEndSession s macOf sessionID = (StatusOK, s1, DeleteSession sessionID # rest)
          \<and> sessions s1 = (sessions s)(sessionID := None)
          \<and> filter (is_settlement sessionID) rest = [SettleSessionInBackground sessionID session]
          \<and> handleEndSession s1 macOf sessionID = (StatusNotFound, s1, [])"
    by (intro exI [of _ ?s1] exI [of _ rest]) simp
next
  fix keys clock pay s1 effects session
  assume a: "distinct keys \<and> sessionID \<in> set keys \<and> sessions s sessionID = Some session
        \<and> (ExpiresAt session < clock sessionID
             \<or> FundingAmount session - TotalPaid session < ratePerMin s)
        \<and> processMicropayments s clock pay keys = (s1, effects)"
  then have t: "sessions s1 sessionID = None
      \<and> filter (\<lambda>e. effect_key e = Some sessionID) effects
          = [SettleExpiredSession sessionID session, DeleteSession sessionID]
      \<and> filter (is_settlement sessionID) effects = [SettleExpiredSession sessionID session]"
    using tick_settles_due_session [of keys sessionID s session clock pay s1 effects] by blast
  then show "sessions s1 sessionID = None"
    and "filter (\<lambda>e. effect_key e = Some sessionID) effects
          = [SettleExpiredSession sessionID session, DeleteSession sessionID]"
    and "filter (is_settlement sessionID) effects = [SettleExpiredSession sessionID session]"
    by simp_all
  from t show "handleEndSession s1 macOf sessionID = (StatusNotFound, s1, [])"
    by (simp add: handleEndSession_absent)
next
  fix keys clock pay s1 effects
  assume a: "distinct keys \<and> processMicropayments s clock pay keys = (s1, effects)"
  then show "length (filter (is_settlement sessionID) effects) \<le> 1"
    using tick_settlements by blast
  {
    assume "filter (is_settlement sessionID) effects \<noteq> []"
    then show "sessions s1 sessionID = None"
      using a tick_settlements by blast
  }
qed

text \<open>
  The counterexample to claim C2 as stated: on a tick two hours after its creation, the
  session of one hour is past its expiry; the first thing the scheduler does is to start
  the settlement task, and the deletion from the registry follows.
\<close>

theorem scheduler_settles_before_delete_counterexample:
  "sessions (serving 0) ''a1b2c3d4e5f60718'' = Some (guest 0)
   \<and> ExpiresAt (guest 0) < 7200000000000
   \<and> snd (processMicropayments (serving 0) (\<lambda>k. 7200000000000) (\<lambda>k. True) [''a1b2c3d4e5f60718''])
       = [SettleExpiredSession ''a1b2c3d4e5f60718'' (guest 0), DeleteSession ''a1b2c3d4e5f60718'']
   \<and> hd (snd (processMicropayments (serving 0) (\<lambda>k. 7200000000000) (\<lambda>k. True)
         [''a1b2c3d4e5f60718''])) \<noteq> DeleteSession ''a1b2c3d4e5f60718''"
  by (simp add: processMicropayments_def serving_fields process_session_def guest_def)

theorem settlement_exactly_once_witness:
  "sessions (serving 0) ''a1b2c3d4e5f60718'' = Some (guest 0)
   \<and> handleEndSession (serving 0) (\<lambda>k. Some ''aa:bb'') ''a1b2c3d4e5f60718''
       = (StatusOK, host,
          [DeleteSession ''a1b2c3d4e5f60718'',
           UpdateSessionStatus ''a1b2c3d4e5f60718'' ''settling'', DeauthorizeMAC ''aa:bb'',
           SettleSessionInBackground ''a1b2c3d4e5f60718'' (guest 0)])
   \<and> handleEndSession host (\<lambda>k. Some ''aa:bb'') ''a1b2c3d4e5f60718'' = (StatusNotFound, host, [])
   \<and> ExpiresAt (guest 0) < 7200000000000
   \<and> processMicropayments (serving 0) (\<lambda>k. 7200000000000) (\<lambda>k. True) [''a1b2c3d4e5f60718'']
       = (host, [SettleExpiredSession ''a1b2c3d4e5f60718'' (guest 0),
                 DeleteSession ''a1b2c3d4e5f60718''])"
proof -
  let ?k = "''a1b2c3d4e5f60718''"
  let ?mac = "\<lambda>k::string. Some ''aa:bb''"
  let ?r = "processMicropayments (serving 0) (\<lambda>k. 7200000000000) (\<lambda>k. True) [?k]"
  note t = settlement_exactly_once [of "serving 0" ?k ?mac]
  note u = settlement_exactly_once [of host ?k ?mac]
  have g: "sessions (serving 0) ?k = Some (guest 0)"
    by (rule serving_fields)
  have removed: "(serving 0)\<lparr>sessions := (sessions (serving 0))(?k := None)\<rparr> = host"
    by (simp add: serving_def host_def NewServer_def)
  have first: "handleEndSession (serving 0) ?mac ?k
       = (StatusOK, host,
          [DeleteSession ?k, UpdateSessionStatus ?k ''settling'', DeauthorizeMAC ''aa:bb'',
           SettleSessionInBackground ?k (guest 0)])"
    using g removed by (simp add: handleEndSession_def)
  have "sessions host ?k = None" by (simp add: host_fields)
  with u have second: "handleEndSession host ?mac ?k = (StatusNotFound, host, [])"
    by blast
  have x: "ExpiresAt (guest 0) < 7200000000000" by (simp add: guest_def)
  have tick: "?r = (host, [SettleExpiredSession ?k (guest 0), DeleteSession ?k])"
    using removed
    by (simp add: processMicropayments_def serving_fields process_session_def guest_def)
  from t g first second x tick show ?thesis by simp
qed

section \<open>The bound of the paid amount by the funding\<close>

text \<open>
  The tick keeps \<open>TotalPaid \<le> FundingAmount\<close>: it pays only when the remaining funds
  cover the rate, and it adds the rate only when the payment succeeded.
\<close>

lemma process_session_within_funding:
  assumes "process_session now payOk rate sessionID session = (Some session', effects)"
    and "TotalPaid session \<le> FundingAmount session"
  shows "TotalPaid session' \<le> FundingAmount session'
    \<and> FundingAmount session' = FundingAmount session"
  using assms by (auto simp: process_session_def Let_def split: if_splits)

text \<open>
  An extension adds the amount to \<open>TotalPaid\<close> when the channel accepts the payment and
  leaves \<open>FundingAmount\<close> as it is.
\<close>

lemma handleExtendSession_paid:
  assumes "handleExtendSession s True sessionID (Some amountCKB) = Inr (StatusOK, s', effects)"
    and "sessions s sessionID = Some session"
  shows "\<exists>session'. sessions s' sessionID = Some session'
    \<and> TotalPaid session' = TotalPaid session + amountCKB * 100000000
    \<and> FundingAmount session' = FundingAmount session"
  using assms
  by (auto simp: handleExtendSession_def Let_def split: if_splits option.splits)

lemma guest_node_prepared:
  "EnsureMinimumCells guest_node 5 4 = (None, guest_node)"
  "CountCells guest_node 5 = (Inr 4, guest_node)"
  by (simp_all add: EnsureMinimumCells_def CountCells_def rpc_GetCells_def rpc_call_def
      guest_node_def)

text \<open>
  Claim C1 does not hold of \<open>openChannelForSession\<close>. The claim is that \<open>TotalPaid \<le>
  FundingAmount\<close> for every session at every observation point, also after the catch-up
  payment of the channel opening. The code registers the session with \<open>TotalPaid\<close> set to
  the catch-up amount \<open>elapsedMinutes * ratePerMin\<close>, whatever the funding is and whether or
  not the payment went through. The run below is the host at 500 CKB per hour with 1000
  CKB reserved, a wallet of 1005 CKB and one elapsed minute: the session enters the
  registry with a funding of 500000000 and 833333333 paid, and the store is told a
  balance of -3 CKB.
\<close>

theorem catch_up_exceeds_funding:
  "openChannelForSession host guest_node
     \<lparr>keyDecodes = True, guestLockScript = Some 5, clientCreated = True,
      proposedChannel = Some ''c0ffee'', dbSession = Some (0, 0), elapsed = 1\<rparr>
     \<lparr>wallet_ID = ''w1'', Address = ''ckt1guest'',
      PrivateKeyHex = ''00112233445566778899aabbccddeeff'',
      MACAddress = [], IPAddress = []\<rparr>
     ''a1b2c3d4e5f60718'' 1005
   = Inr (host\<lparr>sessions := [''a1b2c3d4e5f60718'' \<mapsto>
               \<lparr>ID = ''a1b2c3d4e5f60718'', GuestAddress = ''ckt1guest'',
                FundingAmount = 500000000, TotalPaid = 833333333,
                CreatedAt = 0, ExpiresAt = 0\<rparr>]\<rparr>,
          guest_node,
          [UpdateSessionStatus ''a1b2c3d4e5f60718'' ''channel_opening'',
           UpdateSessionChannel ''a1b2c3d4e5f60718'' ''c0ffee'',
           UpdateWalletStatus ''w1'' ''channel_open'',
           SendPayment ''a1b2c3d4e5f60718'' 833333333,
           UpdateSessionBalance ''a1b2c3d4e5f60718'' (- 3) 8])"
  by (simp add: openChannelForSession_def guest_node_prepared host_def NewServer_def
      ratePerMinShannons_def signed_divide_int_def toCKB_def Int64_def Let_def)

end
